theory Spec2Isabelle
  imports Complex_Main
begin

section \<open>The window-physics controllers of clutterx-website\<close>

text \<open>
  The repository holds five revisions of one class, \<open>WindowPhysics\<close>, each a
  controller for a window docked to a taskbar:

  \<^item> \<open>adv\<close>: src/js/window-physics.js, lines 1-572 (strict shake gesture, with physics);
  \<^item> \<open>grav\<close>: src/js/window-physics.js, lines 574-1193 (stretch gesture, gravity toggle);
  \<^item> \<open>basic\<close>: src/js/window-physics.js, lines 1195-1540 (simple shake gesture, no physics);
  \<^item> \<open>clean\<close>: src/unnamed/part_000 (stretch gesture, gravity toggle, guarded start);
  \<^item> \<open>str\<close>: src/unnamed/part_001 (stretch gesture, no gravity).

  Every method is embedded as a function on one state record; a method that exists in
  several revisions carries the revision as a suffix, and a method whose text is the
  same in all of them is embedded once. JavaScript numbers are modelled as reals.

  The record holds the fields of the instance (\<open>this.*\<close>), the part of the element
  \<open>this.window\<close> the class reads or writes, and the part of the host page it uses
  (viewport size, interval timers, pending timeouts, dispatched events, toasts).
  \<open>console.log\<close>, \<open>localStorage\<close> and fields that are written but never read
  (\<open>shakeCount\<close>, \<open>dragStartTime\<close>, \<open>initialWindowX\<close>, ...) are left out.
\<close>

subsection \<open>State\<close>

text \<open>The value of \<open>style.transform\<close>: the strings the code builds, by their kind.\<close>

datatype transform =
  TEmpty
  | TOriginal
  | TStretched real
  | TDetachPop
  | TReattachSquash

text \<open>The bodies of the \<open>setTimeout\<close> callbacks.\<close>

datatype callback =
  RemoveShaking
  | RemoveReattaching
  | EndDetachEffect
  | EndReattachEffect
  | EndSnapBack

text \<open>The value of \<open>style.filter\<close>: empty, or the string built from a stretch amount.\<close>

datatype filter_value = FEmpty | FStretched real

datatype event = WindowDetached | WindowReattached

text \<open>An entry of \<open>lastPositions\<close>: \<open>{ x, y, time }\<close>.\<close>

record sample =
  pos_x :: real
  pos_y :: real
  pos_time :: real

record window_physics =
  isDetached :: bool
  isDragging :: bool
  isStretching :: bool
  stretchStartY :: real
  stretchAmount :: real
  maxStretch :: real
  snapThreshold :: real
  lastMouseX :: real
  lastMouseY :: real
  dragStartX :: real
  dragStartY :: real
  windowStartX :: real
  windowStartY :: real
  dragOffset_x :: real
  dragOffset_y :: real
  lastPositions :: "sample list"
  shakeThreshold :: real
  slamVelocityThreshold :: real
  taskbarHeight :: real
  taskbarOffset :: real
  velocity_x :: real
  velocity_y :: real
  acceleration_x :: real
  acceleration_y :: real
  gravityEnabled :: bool
  friction :: real
  bounce :: real
  physicsInterval :: "nat option"
  style_left :: real
  style_top :: "real option"
  style_bottom :: "real option"
  style_position :: string
  zIndex :: string
  classes :: "string set"
  transform :: transform
  transformOrigin :: string
  transition :: string
  filter_css :: filter_value
  boxShadow :: string
  cursor :: string
  offsetWidth :: real
  offsetHeight :: real
  sheetTop :: real
  innerWidth :: real
  innerHeight :: real
  intervals :: "nat set"
  nextHandle :: nat
  timeouts :: "callback list"
  dispatched :: "event list"
  notifications :: "string list"

subsection \<open>The element and the host page\<close>

text \<open>
  \<open>getBoundingClientRect()\<close> of the fixed-position window, read off its inline
  style: \<open>left\<close> is the inline left; \<open>top\<close> is the inline top when there is one
  (\<open>None\<close> stands for \<open>'auto'\<close>), else it follows from the inline bottom, else it is
  the position the style sheet gives. Cosmetic transforms do not move the rectangle in
  this model.
\<close>

definition rect_left :: "window_physics \<Rightarrow> real" where
  "rect_left s = style_left s"

definition rect_top :: "window_physics \<Rightarrow> real" where
  "rect_top s =
     (case style_top s of
        Some t \<Rightarrow> t
      | None \<Rightarrow>
          (case style_bottom s of
             Some b \<Rightarrow> innerHeight s - b - offsetHeight s
           | None \<Rightarrow> sheetTop s))"

definition rect_bottom :: "window_physics \<Rightarrow> real" where
  "rect_bottom s = rect_top s + offsetHeight s"

definition showNotification :: "string \<Rightarrow> window_physics \<Rightarrow> window_physics" where
  "showNotification message s = s\<lparr>notifications := notifications s @ [message]\<rparr>"

definition dispatchEvent :: "event \<Rightarrow> window_physics \<Rightarrow> window_physics" where
  "dispatchEvent e s = s\<lparr>dispatched := dispatched s @ [e]\<rparr>"

definition setTimeout :: "callback \<Rightarrow> window_physics \<Rightarrow> window_physics" where
  "setTimeout cb s = s\<lparr>timeouts := timeouts s @ [cb]\<rparr>"

text \<open>
  \<open>setInterval\<close> hands out a fresh handle and the timer with that handle fires
  until it is cleared: \<open>intervals\<close> is the set of timers that fire. Handles of a
  browser are positive, so the first one is 1.
\<close>

definition setInterval :: "window_physics \<Rightarrow> nat \<times> window_physics" where
  "setInterval s =
     (nextHandle s,
      s\<lparr>intervals := insert (nextHandle s) (intervals s), nextHandle := Suc (nextHandle s)\<rparr>)"

definition clearInterval :: "nat \<Rightarrow> window_physics \<Rightarrow> window_physics" where
  "clearInterval h s = s\<lparr>intervals := intervals s - {h}\<rparr>"

text \<open>The truth value of \<open>this.physicsInterval\<close>: \<open>null\<close> and 0 are falsy.\<close>

definition truthy :: "nat option \<Rightarrow> bool" where
  "truthy v = (case v of None \<Rightarrow> False | Some h \<Rightarrow> h \<noteq> 0)"

subsection \<open>Methods shared by the revisions\<close>

text \<open>\<open>stopPhysics\<close> (adv 358-365, grav 898-905, clean 292-299, str 268-275).\<close>

definition stopPhysics :: "window_physics \<Rightarrow> window_physics" where
  "stopPhysics s =
     (let s1 = (case physicsInterval s of
                  Some h \<Rightarrow>
                    if h \<noteq> 0 then (clearInterval h s)\<lparr>physicsInterval := None\<rparr> else s
                | None \<Rightarrow> s)
      in s1\<lparr>velocity_x := 0, velocity_y := 0\<rparr>)"

text \<open>\<open>moveWindowFreely\<close> (adv 313-325, grav 875-887, clean 249-261, str 245-257).\<close>

definition moveWindowFreely :: "real \<Rightarrow> real \<Rightarrow> window_physics \<Rightarrow> window_physics" where
  "moveWindowFreely x y s =
     (let maxX = innerWidth s - offsetWidth s;
          maxY = innerHeight s - offsetHeight s;
          x1 = max 0 (min maxX x);
          y1 = max 0 (min maxY y)
      in s\<lparr>style_left := x1, style_top := Some y1, style_bottom := None,
            style_position := ''fixed''\<rparr>)"

text \<open>\<open>moveOnTaskbarRail\<close> of the stretch revisions (grav 864-873, clean 238-247, str 234-243).\<close>

definition moveOnTaskbarRail :: "real \<Rightarrow> window_physics \<Rightarrow> window_physics" where
  "moveOnTaskbarRail x s =
     (let maxX = innerWidth s - offsetWidth s;
          x1 = max 0 (min maxX x)
      in s\<lparr>style_left := x1, style_bottom := Some 52, style_top := None,
            style_position := ''fixed''\<rparr>)"

text \<open>\<open>moveOnTaskbarRail\<close> and \<open>snapToTaskbar\<close> of adv (327-344).\<close>

definition moveOnTaskbarRail_adv :: "real \<Rightarrow> real \<Rightarrow> window_physics \<Rightarrow> window_physics" where
  "moveOnTaskbarRail_adv x y s =
     (let maxX = innerWidth s - offsetWidth s;
          x1 = max 0 (min maxX x)
      in s\<lparr>style_left := x1, style_bottom := Some (taskbarHeight s + taskbarOffset s),
            style_top := None, style_position := ''fixed''\<rparr>)"

definition snapToTaskbar_adv :: "window_physics \<Rightarrow> window_physics" where
  "snapToTaskbar_adv s =
     s\<lparr>style_bottom := Some (taskbarHeight s + taskbarOffset s), style_top := None,
       style_position := ''fixed''\<rparr>"

text \<open>\<open>resetStretchEffect\<close>: str 174-178; grav 798-805 and clean 178-184.\<close>

definition resetStretchEffect_str :: "window_physics \<Rightarrow> window_physics" where
  "resetStretchEffect_str s =
     s\<lparr>transform := TOriginal, filter_css := FEmpty,
       classes := classes s - {''ready-to-detach''}\<rparr>"

definition resetStretchEffect :: "window_physics \<Rightarrow> window_physics" where
  "resetStretchEffect s =
     s\<lparr>transform := TEmpty, transformOrigin := [], filter_css := FEmpty, transition := [],
       classes := classes s - {''ready-to-detach'', ''stretching''}\<rparr>"

subsection \<open>Detaching\<close>

text \<open>\<open>detachWindow\<close> of adv (218-246).\<close>

definition detachWindow_adv :: "window_physics \<Rightarrow> window_physics" where
  "detachWindow_adv s =
     (if isDetached s then s
      else
        let s1 = s\<lparr>isDetached := True, classes := insert ''detached'' (classes s),
                    zIndex := ''9999''\<rparr>;
            s2 = s1\<lparr>style_left := rect_left s1, style_top := Some (rect_top s1),
                     style_bottom := None\<rparr>;
            s3 = setTimeout RemoveShaking (s2\<lparr>classes := insert ''shaking'' (classes s2)\<rparr>);
            s4 = dispatchEvent WindowDetached s3
        in showNotification ''Window detached! Now has physics - try throwing it!'' s4)"

text \<open>\<open>detachWindow\<close> of str (194-232).\<close>

definition detachWindow_str :: "window_physics \<Rightarrow> window_physics" where
  "detachWindow_str s =
     (if isDetached s then s
      else
        let s1 = s\<lparr>isDetached := True, isStretching := False,
                    classes := insert ''detached'' (classes s), zIndex := ''9999''\<rparr>;
            s2 = s1\<lparr>style_left := rect_left s1, style_top := Some (rect_top s1),
                     style_bottom := None, style_position := ''fixed''\<rparr>;
            s3 = s2\<lparr>transition := ''transform 0.3s cubic-bezier(0.175, 0.885, 0.32, 1.275)'',
                     transform := TDetachPop\<rparr>;
            s4 = setTimeout EndDetachEffect s3;
            s5 = resetStretchEffect_str s4;
            s6 = showNotification ''Window detached! Now has physics - try throwing it!'' s5
        in dispatchEvent WindowDetached s6)"

text \<open>\<open>detachWindow\<close> of grav (824-862).\<close>

definition detachWindow_grav :: "window_physics \<Rightarrow> window_physics" where
  "detachWindow_grav s =
     (if isDetached s then s
      else
        let s1 = s\<lparr>isDetached := True, isStretching := False,
                    classes := insert ''detached'' (classes s), zIndex := ''9999''\<rparr>;
            s2 = s1\<lparr>style_left := rect_left s1, style_top := Some (rect_top s1),
                     style_bottom := None, style_position := ''fixed''\<rparr>;
            s3 = s2\<lparr>transition := ''transform 0.3s cubic-bezier(0.175, 0.885, 0.32, 1.275)'',
                     transform := TDetachPop\<rparr>;
            s4 = setTimeout EndDetachEffect s3;
            s5 = resetStretchEffect s4;
            s6 = showNotification ''Window detached! Now has physics - try throwing it!'' s5
        in dispatchEvent WindowDetached s6)"

text \<open>\<open>detachWindow\<close> of clean (200-236); it dispatches no event.\<close>

definition detachWindow_clean :: "window_physics \<Rightarrow> window_physics" where
  "detachWindow_clean s =
     (if isDetached s then s
      else
        let s1 = s\<lparr>isDetached := True, isStretching := False,
                    classes := insert ''detached'' (classes s), zIndex := ''9999''\<rparr>;
            rl = rect_left s1;
            rt = rect_top s1;
            s2 = s1\<lparr>style_position := ''fixed'', style_left := rl, style_top := Some rt,
                     style_bottom := None\<rparr>;
            s3 = s2\<lparr>transition := ''transform 0.2s ease'', transform := TDetachPop\<rparr>;
            s4 = setTimeout EndDetachEffect s3;
            s5 = resetStretchEffect s4;
            s6 = s5\<lparr>windowStartX := rl, windowStartY := rt\<rparr>
        in showNotification ''Window detached! Drag freely or double-click for gravity'' s6)"

subsection \<open>Reattaching\<close>

text \<open>\<open>reattachWindow\<close> of adv (283-311).\<close>

definition reattachWindow_adv :: "window_physics \<Rightarrow> window_physics" where
  "reattachWindow_adv s =
     (if \<not> isDetached s then s
      else
        let s1 = stopPhysics s;
            s2 = s1\<lparr>isDetached := False, classes := classes s1 - {''detached''},
                     zIndex := []\<rparr>;
            s3 = snapToTaskbar_adv s2;
            s4 = setTimeout RemoveReattaching (s3\<lparr>classes := insert ''reattaching'' (classes s3)\<rparr>);
            s5 = dispatchEvent WindowReattached s4
        in showNotification ''Window reattached to taskbar!'' s5)"

text \<open>\<open>reattachWindow\<close> of str (332-359).\<close>

definition reattachWindow_str :: "window_physics \<Rightarrow> window_physics" where
  "reattachWindow_str s =
     (if \<not> isDetached s then s
      else
        let s1 = stopPhysics s;
            s2 = s1\<lparr>isDetached := False,
                     classes := classes s1 - {''detached'', ''ready-to-detach''},
                     zIndex := []\<rparr>;
            s3 = s2\<lparr>transition :=
                       ''transform 0.2s ease, bottom 0.4s cubic-bezier(0.25, 0.46, 0.45, 0.94)'',
                     style_bottom := Some 52, style_top := None,
                     transform := TReattachSquash\<rparr>;
            s4 = setTimeout EndReattachEffect s3;
            s5 = resetStretchEffect_str s4;
            s6 = showNotification ''Window reattached to taskbar!'' s5
        in dispatchEvent WindowReattached s6)"

text \<open>\<open>reattachWindow\<close> of grav (991-1025).\<close>

definition reattachWindow_grav :: "window_physics \<Rightarrow> window_physics" where
  "reattachWindow_grav s =
     (if \<not> isDetached s then s
      else
        let s1 = stopPhysics s;
            s2 = s1\<lparr>isDetached := False, gravityEnabled := False, acceleration_y := 0\<rparr>;
            s3 = s2\<lparr>classes := classes s2 - {''detached'', ''ready-to-detach''},
                     zIndex := [], boxShadow := []\<rparr>;
            s4 = s3\<lparr>transition :=
                       ''transform 0.2s ease, bottom 0.4s cubic-bezier(0.25, 0.46, 0.45, 0.94)'',
                     style_bottom := Some 52, style_top := None,
                     transform := TReattachSquash\<rparr>;
            s5 = setTimeout EndReattachEffect s4;
            s6 = resetStretchEffect s5;
            s7 = showNotification ''Window reattached to taskbar!'' s6
        in dispatchEvent WindowReattached s7)"

text \<open>\<open>reattachWindow\<close> of clean (375-406).\<close>

definition reattachWindow_clean :: "window_physics \<Rightarrow> window_physics" where
  "reattachWindow_clean s =
     (if \<not> isDetached s then s
      else
        let s1 = stopPhysics s;
            s2 = s1\<lparr>isDetached := False, gravityEnabled := False\<rparr>;
            s3 = s2\<lparr>classes := classes s2 - {''detached'', ''ready-to-detach''},
                     zIndex := [], boxShadow := []\<rparr>;
            s4 = s3\<lparr>transition := ''bottom 0.3s ease'', style_bottom := Some 52,
                     style_top := None\<rparr>;
            s5 = setTimeout EndReattachEffect s4;
            s6 = resetStretchEffect s5;
            s7 = showNotification ''Window reattached! Gravity reset'' s6
        in dispatchEvent WindowReattached s7)"

subsection \<open>Constructors\<close>

text \<open>
  A constructor receives the element; here it receives the record that holds the
  element and the page, and sets the instance fields. \<open>init()\<close> adds the class
  \<open>physics-enabled\<close> (the cursor it sets is the title bar's, not the window's).
\<close>

definition WindowPhysics_adv :: "window_physics \<Rightarrow> window_physics" where
  "WindowPhysics_adv el =
     el\<lparr>isDetached := False, isDragging := False, lastPositions := [],
        shakeThreshold := 25, slamVelocityThreshold := 500, taskbarHeight := 50,
        taskbarOffset := 2, dragOffset_x := 0, dragOffset_y := 0,
        velocity_x := 0, velocity_y := 0, friction := 0.95, bounce := 0.3,
        physicsInterval := None,
        classes := insert ''physics-enabled'' (classes el)\<rparr>"


definition WindowPhysics_basic :: "window_physics \<Rightarrow> window_physics" where
  "WindowPhysics_basic el =
     el\<lparr>isDetached := False, isDragging := False, lastPositions := [],
        shakeThreshold := 15, slamVelocityThreshold := 500, taskbarHeight := 60,
        dragOffset_x := 0, dragOffset_y := 0,
        classes := insert ''physics-enabled'' (classes el)\<rparr>"

definition WindowPhysics_clean :: "window_physics \<Rightarrow> window_physics" where
  "WindowPhysics_clean el =
     el\<lparr>isDetached := False, isDragging := False, isStretching := False,
        stretchStartY := 0, stretchAmount := 0, maxStretch := 60, snapThreshold := 40,
        dragStartX := 0, dragStartY := 0, windowStartX := 0, windowStartY := 0,
        velocity_x := 0, velocity_y := 0, gravityEnabled := False,
        friction := 0.98, bounce := 0.6, physicsInterval := None,
        classes := insert ''physics-enabled'' (classes el)\<rparr>"

definition WindowPhysics_str :: "window_physics \<Rightarrow> window_physics" where
  "WindowPhysics_str el =
     el\<lparr>isDetached := False, isDragging := False, isStretching := False,
        stretchStartY := 0, stretchAmount := 0, maxStretch := 80, snapThreshold := 60,
        dragOffset_x := 0, dragOffset_y := 0, lastMouseX := 0, lastMouseY := 0,
        velocity_x := 0, velocity_y := 0, friction := 0.95, bounce := 0.3,
        physicsInterval := None,
        classes := insert ''physics-enabled'' (classes el)\<rparr>"

text \<open>
  A page to run the code on: a viewport of 1280 by 720 and the element
  \<open>#chat-window\<close>, 320 by 240, docked 52 pixels above the bottom.
\<close>

definition chat_window :: window_physics where
  "chat_window =
     \<lparr>isDetached = False, isDragging = False, isStretching = False,
      stretchStartY = 0, stretchAmount = 0, maxStretch = 0, snapThreshold = 0,
      lastMouseX = 0, lastMouseY = 0, dragStartX = 0, dragStartY = 0,
      windowStartX = 0, windowStartY = 0, dragOffset_x = 0, dragOffset_y = 0,
      lastPositions = [], shakeThreshold = 0, slamVelocityThreshold = 0,
      taskbarHeight = 0, taskbarOffset = 0, velocity_x = 0, velocity_y = 0,
      acceleration_x = 0, acceleration_y = 0, gravityEnabled = False,
      friction = 0, bounce = 0, physicsInterval = None,
      style_left = 100, style_top = None, style_bottom = Some 52,
      style_position = ''fixed'', zIndex = [], classes = {''vista-window''},
      transform = TEmpty, transformOrigin = [], transition = [], filter_css = FEmpty,
      boxShadow = [], cursor = [], offsetWidth = 320, offsetHeight = 240,
      sheetTop = 428, innerWidth = 1280, innerHeight = 720,
      intervals = {}, nextHandle = 1, timeouts = [], dispatched = [],
      notifications = []\<rparr>"

subsection \<open>The stretch gesture\<close>

text \<open>A mouse event, as far as the handlers read it.\<close>

record mouse =
  clientX :: real
  clientY :: real

text \<open>
  \<open>applyStretchEffect\<close>: str 153-172, grav 760-796, clean 151-176. The transform
  and filter strings are functions of \<open>stretchAmount\<close> (and of the clock, in grav);
  the model keeps the amount they were built from.
\<close>

definition applyStretchEffect_str :: "window_physics \<Rightarrow> window_physics" where
  "applyStretchEffect_str s =
     (let s1 = s\<lparr>transform := TStretched (stretchAmount s),
                   filter_css := FStretched (stretchAmount s)\<rparr>
      in if stretchAmount s1 \<ge> snapThreshold s1 * 0.8
         then s1\<lparr>classes := insert ''ready-to-detach'' (classes s1)\<rparr>
         else s1\<lparr>classes := classes s1 - {''ready-to-detach''}\<rparr>)"

definition applyStretchEffect_grav :: "window_physics \<Rightarrow> window_physics" where
  "applyStretchEffect_grav s =
     (let s1 = s\<lparr>transformOrigin := ''center bottom'', transition := ''none !important'',
                   transform := TStretched (stretchAmount s),
                   filter_css := FStretched (stretchAmount s)\<rparr>
      in if stretchAmount s1 \<ge> snapThreshold s1 * 0.7
         then s1\<lparr>classes := insert ''ready-to-detach'' (classes s1)\<rparr>
         else s1\<lparr>classes := classes s1 - {''ready-to-detach''}\<rparr>)"

definition applyStretchEffect_clean :: "window_physics \<Rightarrow> window_physics" where
  "applyStretchEffect_clean s =
     (let s1 = s\<lparr>transformOrigin := ''center bottom'', transition := ''none'',
                   transform := TStretched (stretchAmount s),
                   filter_css := FStretched (stretchAmount s)\<rparr>
      in if stretchAmount s1 \<ge> snapThreshold s1 * 0.8
         then s1\<lparr>classes := insert ''ready-to-detach'' (classes s1)\<rparr>
         else s1\<lparr>classes := classes s1 - {''ready-to-detach''}\<rparr>)"

text \<open>\<open>startDrag\<close>: str 53-80 and grav 629-656 (the same text); clean 52-79.\<close>

definition startDrag_str :: "mouse \<Rightarrow> window_physics \<Rightarrow> window_physics" where
  "startDrag_str e s =
     (let s1 = s\<lparr>isDragging := True, isStretching := False, stretchAmount := 0\<rparr>;
          s2 = s1\<lparr>dragOffset_x := clientX e - rect_left s1,
                   dragOffset_y := clientY e - rect_top s1,
                   stretchStartY := clientY e,
                   lastMouseX := clientX e, lastMouseY := clientY e\<rparr>
      in s2\<lparr>cursor := ''grabbing'', classes := insert ''moving'' (classes s2),
            transition := ''none''\<rparr>)"

definition startDrag_clean :: "mouse \<Rightarrow> window_physics \<Rightarrow> window_physics" where
  "startDrag_clean e s =
     (let s1 = s\<lparr>isDragging := True, isStretching := False, stretchAmount := 0\<rparr>;
          s2 = s1\<lparr>dragStartX := clientX e, dragStartY := clientX e,
                   windowStartX := rect_left s1, windowStartY := rect_top s1,
                   stretchStartY := clientY e\<rparr>
      in s2\<lparr>cursor := ''grabbing'', classes := insert ''moving'' (classes s2),
            transition := ''none''\<rparr>)"

text \<open>\<open>drag\<close> of str (82-132).\<close>

definition drag_str :: "mouse \<Rightarrow> window_physics \<Rightarrow> window_physics" where
  "drag_str e s =
     (if \<not> isDragging s then s
      else
        let deltaX = clientX e - lastMouseX s;
            deltaY = clientY e - lastMouseY s;
            s1 = (if isDetached s
                  then s\<lparr>velocity_x := deltaX * 0.8, velocity_y := deltaY * 0.8\<rparr>
                  else s);
            s2 = s1\<lparr>lastMouseX := clientX e, lastMouseY := clientY e\<rparr>
        in if isDetached s2
           then moveWindowFreely (rect_left s2 + deltaX) (rect_top s2 + deltaY) s2
           else
             let upwardDistance = stretchStartY s2 - clientY e
             in if upwardDistance > 10
                then
                  let s3 = s2\<lparr>isStretching := True,
                               stretchAmount := min upwardDistance (maxStretch s2)\<rparr>;
                      s4 = applyStretchEffect_str s3
                  in if stretchAmount s4 \<ge> snapThreshold s4 then detachWindow_str s4 else s4
                else
                  let s3 = s2\<lparr>isStretching := False, stretchAmount := 0\<rparr>;
                      s4 = resetStretchEffect_str s3
                  in moveOnTaskbarRail (rect_left s4 + deltaX) s4)"

text \<open>\<open>drag\<close> of grav (658-712).\<close>

definition drag_grav :: "mouse \<Rightarrow> window_physics \<Rightarrow> window_physics" where
  "drag_grav e s =
     (if \<not> isDragging s then s
      else
        let deltaX = clientX e - lastMouseX s;
            deltaY = clientY e - lastMouseY s;
            s1 = (if isDetached s
                  then s\<lparr>velocity_x := deltaX * 1.2, velocity_y := deltaY * 1.2\<rparr>
                  else s);
            s2 = s1\<lparr>lastMouseX := clientX e, lastMouseY := clientY e\<rparr>
        in if isDetached s2
           then moveWindowFreely (rect_left s2 + deltaX) (rect_top s2 + deltaY) s2
           else
             let upwardDistance = stretchStartY s2 - clientY e
             in if upwardDistance > 10
                then
                  let s3 = s2\<lparr>isStretching := True,
                               stretchAmount := min upwardDistance (maxStretch s2)\<rparr>;
                      s4 = s3\<lparr>classes := insert ''stretching'' (classes s3)\<rparr>;
                      s5 = applyStretchEffect_grav s4
                  in if stretchAmount s5 \<ge> snapThreshold s5 then detachWindow_grav s5 else s5
                else
                  let s3 = s2\<lparr>isStretching := False, stretchAmount := 0\<rparr>;
                      s4 = s3\<lparr>classes := classes s3 - {''stretching''}\<rparr>;
                      s5 = resetStretchEffect s4
                  in moveOnTaskbarRail (rect_left s5 + deltaX) s5)"

text \<open>\<open>drag\<close> of clean (81-130).\<close>

definition drag_clean :: "mouse \<Rightarrow> window_physics \<Rightarrow> window_physics" where
  "drag_clean e s =
     (if \<not> isDragging s then s
      else
        let deltaX = clientX e - dragStartX s;
            deltaY = clientY e - dragStartY s
        in if isDetached s
           then
             let newX = windowStartX s + deltaX;
                 newY = windowStartY s + deltaY;
                 s1 = moveWindowFreely newX newY s
             in s1\<lparr>velocity_x := deltaX * 0.3, velocity_y := deltaY * 0.3\<rparr>
           else
             let upwardDistance = stretchStartY s - clientY e
             in if upwardDistance > 10
                then
                  let s3 = s\<lparr>isStretching := True,
                              stretchAmount := min upwardDistance (maxStretch s)\<rparr>;
                      s4 = s3\<lparr>classes := insert ''stretching'' (classes s3)\<rparr>;
                      s5 = applyStretchEffect_clean s4
                  in if stretchAmount s5 \<ge> snapThreshold s5 then detachWindow_clean s5 else s5
                else
                  let s3 = s\<lparr>isStretching := False, stretchAmount := 0\<rparr>;
                      s4 = s3\<lparr>classes := classes s3 - {''stretching''}\<rparr>;
                      s5 = resetStretchEffect s4;
                      newX = windowStartX s5 + deltaX
                  in moveOnTaskbarRail newX s5)"

text \<open>
  \<open>snapBack\<close>: str 180-192, grav 807-822, clean 186-198. The callback queued
  here is the one that, later, clears \<open>isStretching\<close> and \<open>stretchAmount\<close>.
\<close>

definition snapBack_str :: "window_physics \<Rightarrow> window_physics" where
  "snapBack_str s =
     (let s1 = s\<lparr>transition :=
                   ''transform 0.5s cubic-bezier(0.68, -0.55, 0.265, 1.55), filter 0.3s ease''\<rparr>;
          s2 = resetStretchEffect_str s1
      in setTimeout EndSnapBack s2)"


definition snapBack_clean :: "window_physics \<Rightarrow> window_physics" where
  "snapBack_clean s =
     (let s1 = s\<lparr>classes := classes s - {''stretching''}\<rparr>;
          s2 = s1\<lparr>transition := ''transform 0.3s cubic-bezier(0.68, -0.55, 0.265, 1.55)''\<rparr>;
          s3 = resetStretchEffect s2
      in setTimeout EndSnapBack s3)"

subsection \<open>The physics integrator\<close>

text \<open>\<open>startPhysics\<close>: adv 346-356, grav 889-896 and str 259-266 stop first.\<close>

definition startPhysics :: "window_physics \<Rightarrow> window_physics" where
  "startPhysics s =
     (let s1 = stopPhysics s;
          (h, s2) = setInterval s1
      in s2\<lparr>physicsInterval := Some h\<rparr>)"

text \<open>\<open>startPhysics\<close> of clean (283-290) returns when a timer is already set.\<close>

definition startPhysics_clean :: "window_physics \<Rightarrow> window_physics" where
  "startPhysics_clean s =
     (if truthy (physicsInterval s) then s
      else
        let (h, s1) = setInterval s
        in s1\<lparr>physicsInterval := Some h\<rparr>)"

text \<open>The speed the reattachment checks compute: \<open>Math.sqrt(vx * vx + vy * vy)\<close>.\<close>

definition speed :: "window_physics \<Rightarrow> real" where
  "speed s = sqrt (velocity_x s * velocity_x s + velocity_y s * velocity_y s)"

text \<open>\<open>checkForSlamReattach\<close>: str 320-330, grav 974-989, clean 353-360.\<close>

definition checkForSlamReattach_str :: "window_physics \<Rightarrow> window_physics" where
  "checkForSlamReattach_str s =
     (if \<bar>rect_bottom s - innerHeight s\<bar> < 80 \<and> speed s > 8
      then reattachWindow_str s else s)"

definition checkForSlamReattach_grav :: "window_physics \<Rightarrow> window_physics" where
  "checkForSlamReattach_grav s =
     (let taskbarZone = innerHeight s - 120;
          isNearTaskbar = (rect_bottom s \<ge> taskbarZone);
          isMovingDown = (velocity_y s > 0)
      in if isNearTaskbar \<and> (speed s > 3 \<or> isMovingDown)
         then reattachWindow_grav s else s)"

definition checkForSlamReattach_clean :: "window_physics \<Rightarrow> window_physics" where
  "checkForSlamReattach_clean s =
     (let taskbarZone = innerHeight s - 100
      in if rect_bottom s \<ge> taskbarZone then reattachWindow_clean s else s)"

text \<open>\<open>checkForAutoReattach\<close>: grav 960-972, clean 362-373.\<close>

definition checkForAutoReattach_grav :: "window_physics \<Rightarrow> window_physics" where
  "checkForAutoReattach_grav s =
     (let taskbarZone = innerHeight s - 100
      in if rect_bottom s \<ge> taskbarZone
         then (if speed s < 2 then reattachWindow_grav s else s)
         else s)"

definition checkForAutoReattach_clean :: "window_physics \<Rightarrow> window_physics" where
  "checkForAutoReattach_clean s =
     (let taskbarZone = innerHeight s - 80
      in if rect_bottom s \<ge> taskbarZone
         then (if speed s < 2 then reattachWindow_clean s else s)
         else s)"

text \<open>\<open>endDrag\<close>: str 134-151, grav 714-731, clean 132-149.\<close>

definition endDrag_str :: "window_physics \<Rightarrow> window_physics" where
  "endDrag_str s =
     (if \<not> isDragging s then s
      else
        let s1 = s\<lparr>isDragging := False, cursor := [], classes := classes s - {''moving''}\<rparr>
        in if isStretching s1 \<and> \<not> isDetached s1 then snapBack_str s1
           else if isDetached s1 then checkForSlamReattach_str (startPhysics s1)
           else s1)"


definition endDrag_clean :: "window_physics \<Rightarrow> window_physics" where
  "endDrag_clean s =
     (if \<not> isDragging s then s
      else
        let s1 = s\<lparr>isDragging := False, cursor := [], classes := classes s - {''moving''}\<rparr>
        in if isStretching s1 \<and> \<not> isDetached s1 then snapBack_clean s1
           else if isDetached s1 then checkForSlamReattach_clean (startPhysics_clean s1)
           else s1)"

text \<open>
  The collision block of \<open>updatePhysics\<close> (adv 378-402, grav 924-946, clean 317-339,
  str 287-309; the same text in all four): each axis is clamped to its bound with the
  velocity component reversed and scaled by \<open>bounce\<close>, then both components are
  scaled by \<open>friction\<close>. It returns the new coordinates and the state.

  The products are taken in the reals, where the code's doubles round each product
  (5 times 0.3 times 0.95 is 1.425 here and 1.4249999999999998 there). The theorems
  about velocities therefore state what holds for both, at magnitudes whose squares
  a double holds: orderings, signs, the outcome of the threshold test, and values to
  within a tolerance, never the exact value of a product.
\<close>

definition collide :: "real \<Rightarrow> real \<Rightarrow> window_physics \<Rightarrow> real \<times> real \<times> window_physics" where
  "collide newX newY s =
     (let maxX = innerWidth s - offsetWidth s;
          maxY = innerHeight s - offsetHeight s;
          (newX1, s1) =
            (if newX \<le> 0 then (0, s\<lparr>velocity_x := - velocity_x s * bounce s\<rparr>)
             else if newX \<ge> maxX then (maxX, s\<lparr>velocity_x := - velocity_x s * bounce s\<rparr>)
             else (newX, s));
          (newY1, s2) =
            (if newY \<le> 0 then (0, s1\<lparr>velocity_y := - velocity_y s1 * bounce s1\<rparr>)
             else if newY \<ge> maxY then (maxY, s1\<lparr>velocity_y := - velocity_y s1 * bounce s1\<rparr>)
             else (newY, s1));
          s3 = s2\<lparr>velocity_x := velocity_x s2 * friction s2,
                   velocity_y := velocity_y s2 * friction s2\<rparr>
      in (newX1, newY1, s3))"

text \<open>\<open>updatePhysics\<close> of str (277-318).\<close>

definition updatePhysics_str :: "window_physics \<Rightarrow> window_physics" where
  "updatePhysics_str s =
     (if \<not> isDetached s \<or> isDragging s then stopPhysics s
      else
        let newX = rect_left s + velocity_x s;
            newY = rect_top s + velocity_y s;
            (newX1, newY1, s1) = collide newX newY s
        in if \<bar>velocity_x s1\<bar> < 0.1 \<and> \<bar>velocity_y s1\<bar> < 0.1 then stopPhysics s1
           else moveWindowFreely newX1 newY1 s1)"

text \<open>\<open>updatePhysics\<close> of adv (367-413) writes the position itself.\<close>

definition updatePhysics_adv :: "window_physics \<Rightarrow> window_physics" where
  "updatePhysics_adv s =
     (if \<not> isDetached s \<or> isDragging s then stopPhysics s
      else
        let newX = rect_left s + velocity_x s;
            newY = rect_top s + velocity_y s;
            (newX1, newY1, s1) = collide newX newY s
        in if \<bar>velocity_x s1\<bar> < 0.1 \<and> \<bar>velocity_y s1\<bar> < 0.1 then stopPhysics s1
           else s1\<lparr>style_left := newX1, style_top := Some newY1\<rparr>)"

text \<open>
  The state of a step of adv and str after its collision block, on which the step
  evaluates the stopping test \<open>|vx| < 0.1 && |vy| < 0.1\<close> (adv 405, str 312).
\<close>

definition damped :: "window_physics \<Rightarrow> window_physics" where
  "damped s =
     snd (snd (collide (rect_left s + velocity_x s) (rect_top s + velocity_y s) s))"

text \<open>\<open>updatePhysics\<close> of grav (907-958).\<close>

definition updatePhysics_grav :: "window_physics \<Rightarrow> window_physics" where
  "updatePhysics_grav s =
     (if \<not> isDetached s \<or> isDragging s then stopPhysics s
      else
        let s0 = (if gravityEnabled s
                  then s\<lparr>velocity_x := velocity_x s + acceleration_x s,
                         velocity_y := velocity_y s + acceleration_y s\<rparr>
                  else s);
            newX = rect_left s0 + velocity_x s0;
            newY = rect_top s0 + velocity_y s0;
            (newX1, newY1, s1) = collide newX newY s0
        in if \<bar>velocity_x s1\<bar> < 0.1 \<and> \<bar>velocity_y s1\<bar> < 0.1 then stopPhysics s1
           else checkForAutoReattach_grav (moveWindowFreely newX1 newY1 s1))"

text \<open>\<open>updatePhysics\<close> of clean (301-351).\<close>

definition updatePhysics_clean :: "window_physics \<Rightarrow> window_physics" where
  "updatePhysics_clean s =
     (if \<not> isDetached s \<or> isDragging s then stopPhysics s
      else
        let s0 = (if gravityEnabled s then s\<lparr>velocity_y := velocity_y s + 0.3\<rparr> else s);
            newX = rect_left s0 + velocity_x s0;
            newY = rect_top s0 + velocity_y s0;
            (newX1, newY1, s1) = collide newX newY s0
        in if \<bar>velocity_x s1\<bar> < 0.1 \<and> \<bar>velocity_y s1\<bar> < 0.1 then stopPhysics s1
           else checkForAutoReattach_clean (moveWindowFreely newX1 newY1 s1))"

text \<open>\<open>toggleGravity\<close>: grav 733-758, clean 263-281.\<close>

definition toggleGravity_grav :: "window_physics \<Rightarrow> window_physics" where
  "toggleGravity_grav s =
     (if \<not> isDetached s then s
      else
        let s1 = s\<lparr>gravityEnabled := \<not> gravityEnabled s\<rparr>;
            s2 = s1\<lparr>acceleration_y := (if gravityEnabled s1 then 0.4 else 0)\<rparr>;
            s3 = (if gravityEnabled s2
                  then (showNotification ''Gravity ON! Window will fall down'' s2)
                         \<lparr>boxShadow := ''0 0 20px rgba(255, 165, 0, 0.8)''\<rparr>
                  else (showNotification ''Gravity OFF! Window floats freely'' s2)
                         \<lparr>boxShadow := []\<rparr>)
        in if gravityEnabled s3 \<and> \<not> truthy (physicsInterval s3) then startPhysics s3 else s3)"

definition toggleGravity_clean :: "window_physics \<Rightarrow> window_physics" where
  "toggleGravity_clean s =
     (if \<not> isDetached s then s
      else
        let s1 = s\<lparr>gravityEnabled := \<not> gravityEnabled s\<rparr>
        in if gravityEnabled s1
           then startPhysics_clean
                  ((showNotification ''Gravity ON! Window will fall'' s1)
                     \<lparr>boxShadow := ''0 0 15px rgba(255, 165, 0, 0.6)''\<rparr>)
           else (showNotification ''Gravity OFF! Window floats freely'' s1)
                  \<lparr>boxShadow := []\<rparr>)"

subsection \<open>Runs of events and sample inputs\<close>

text \<open>A run of \<open>mousemove\<close> events, handled in order.\<close>

definition drags_str :: "mouse list \<Rightarrow> window_physics \<Rightarrow> window_physics" where
  "drags_str es s = foldl (\<lambda>s e. drag_str e s) s es"

definition drags_grav :: "mouse list \<Rightarrow> window_physics \<Rightarrow> window_physics" where
  "drags_grav es s = foldl (\<lambda>s e. drag_grav e s) s es"

text \<open>
  The docked window of revision str, grabbed at (200, 500); pointer positions 5 and 30
  pixels above the grab; and a pull of 70 pixels in seven moves, which pass 5, 20, 35,
  50, 60, 65 and 70 pixels above the grab.
\<close>

definition grabbed_str :: window_physics where
  "grabbed_str = startDrag_str \<lparr>clientX = 200, clientY = 500\<rparr> (WindowPhysics_str chat_window)"

definition small_pull :: mouse where
  "small_pull = \<lparr>clientX = 200, clientY = 495\<rparr>"

definition large_pull :: mouse where
  "large_pull = \<lparr>clientX = 200, clientY = 470\<rparr>"

definition pull_up_70 :: "mouse list" where
  "pull_up_70 = map (\<lambda>y. \<lparr>clientX = 200, clientY = y\<rparr>) [495, 480, 465, 450, 440, 435, 430]"

subsection \<open>The timer loop\<close>

text \<open>
  Every interval timer of the page was set by \<open>startPhysics\<close> and calls
  \<open>updatePhysics\<close> on each tick, so ticks go on while a timer is set. With fuel
  \<open>n\<close>, the loop returns the state in which no timer is left, or \<open>None\<close> when
  a timer is still set after \<open>n\<close> ticks.
\<close>

fun physicsLoop_str :: "nat \<Rightarrow> window_physics \<Rightarrow> window_physics option" where
  "physicsLoop_str 0 s = (if intervals s = {} then Some s else None)"
| "physicsLoop_str (Suc n) s =
     (if intervals s = {} then Some s else physicsLoop_str n (updatePhysics_str s))"

fun physicsLoop_adv :: "nat \<Rightarrow> window_physics \<Rightarrow> window_physics option" where
  "physicsLoop_adv 0 s = (if intervals s = {} then Some s else None)"
| "physicsLoop_adv (Suc n) s =
     (if intervals s = {} then Some s else physicsLoop_adv n (updatePhysics_adv s))"

text \<open>
  The integrator runs on timer \<open>h\<close>, the only timer set; and the window is at
  rest, with no timer set.
\<close>

definition ticking :: "nat \<Rightarrow> window_physics \<Rightarrow> bool" where
  "ticking h s \<longleftrightarrow> physicsInterval s = Some h \<and> h \<noteq> 0 \<and> intervals s = {h}"

definition at_rest :: "window_physics \<Rightarrow> bool" where
  "at_rest s \<longleftrightarrow>
     velocity_x s = 0 \<and> velocity_y s = 0 \<and> physicsInterval s = None \<and> intervals s = {}"

text \<open>
  The detached window of revision str at the right edge of the viewport (left 960 =
  1280 - 320) moving right at 5 pixels a frame; the detached window with its
  integrator just started; and the detached window at (400, 100) with its integrator
  started, drifting right at 0.12 pixels a frame. In adv and str a release zeroes the
  velocity before the first tick, so the two moving windows are inputs of
  \<open>updatePhysics\<close> with the velocity given, not states the handlers reach.
\<close>

definition at_right_edge_str :: window_physics where
  "at_right_edge_str =
     (moveWindowFreely 960 100 (detachWindow_str (WindowPhysics_str chat_window)))
       \<lparr>velocity_x := 5\<rparr>"

definition resting_str :: window_physics where
  "resting_str = startPhysics (detachWindow_str (WindowPhysics_str chat_window))"

definition drifting_str :: window_physics where
  "drifting_str =
     (startPhysics (moveWindowFreely 400 100 (detachWindow_str (WindowPhysics_str chat_window))))
       \<lparr>velocity_x := 0.12\<rparr>"



subsection \<open>The shake gesture\<close>

text \<open>
  \<open>recordPosition\<close> (adv 154-160, basic 1298-1304): push the sample and keep the
  last ten. \<open>Date.now()\<close> is the argument \<open>now\<close>.
\<close>

definition recordPosition :: "real \<Rightarrow> real \<Rightarrow> real \<Rightarrow> window_physics \<Rightarrow> window_physics" where
  "recordPosition x y now s =
     (let ps = lastPositions s @ [\<lparr>pos_x = x, pos_y = y, pos_time = now\<rparr>]
      in s\<lparr>lastPositions := (if length ps > 10 then tl ps else ps)\<rparr>)"

text \<open>The counters of \<open>detectShake\<close> of adv (166-171), and its loop body (174-190).\<close>

record shake_counters =
  verticalMovements :: nat
  upwardMovement :: nat
  totalVerticalDistance :: real
  maxUpwardDelta :: real
  consecutiveUpward :: nat
  maxConsecutiveUpward :: nat

definition no_movement :: shake_counters where
  "no_movement =
     \<lparr>verticalMovements = 0, upwardMovement = 0, totalVerticalDistance = 0,
      maxUpwardDelta = 0, consecutiveUpward = 0, maxConsecutiveUpward = 0\<rparr>"

definition shake_body :: "real \<Rightarrow> real \<Rightarrow> shake_counters \<Rightarrow> shake_counters" where
  "shake_body threshold deltaY a =
     (let absDeltaY = \<bar>deltaY\<bar>
      in if absDeltaY > threshold
         then
           let a1 = a\<lparr>verticalMovements := verticalMovements a + 1,
                       totalVerticalDistance := totalVerticalDistance a + absDeltaY\<rparr>
           in if deltaY < 0
              then
                let a2 = a1\<lparr>upwardMovement := upwardMovement a1 + 1,
                             maxUpwardDelta := max (maxUpwardDelta a1) absDeltaY,
                             consecutiveUpward := consecutiveUpward a1 + 1\<rparr>
                in a2\<lparr>maxConsecutiveUpward :=
                         max (maxConsecutiveUpward a2) (consecutiveUpward a2)\<rparr>
              else a1\<lparr>consecutiveUpward := 0\<rparr>
         else a)"

text \<open>The loop \<open>for (i = 1; i < lastPositions.length; i++)\<close> over neighbouring samples.\<close>

fun shake_loop :: "real \<Rightarrow> sample list \<Rightarrow> shake_counters \<Rightarrow> shake_counters" where
  "shake_loop threshold (p # q # ps) a =
     shake_loop threshold (q # ps) (shake_body threshold (pos_y q - pos_y p) a)"
| "shake_loop threshold ps a = a"

text \<open>\<open>detectShake\<close> of adv (162-216).\<close>

definition detectShake_adv :: "window_physics \<Rightarrow> window_physics" where
  "detectShake_adv s =
     (if length (lastPositions s) < 8 then s
      else
        let a = shake_loop (shakeThreshold s) (lastPositions s) no_movement;
            hasStrongShake = (verticalMovements a \<ge> 5);
            hasUpwardForce = (upwardMovement a \<ge> 3);
            hasDistance = (totalVerticalDistance a > 100);
            hasIntensity = (maxUpwardDelta a > 35);
            hasConsistency = (maxConsecutiveUpward a \<ge> 2)
        in if hasStrongShake \<and> hasUpwardForce \<and> hasDistance \<and> hasIntensity \<and> hasConsistency
           then detachWindow_adv s else s)"

text \<open>\<open>detectShake\<close> of basic (1306-1325) keeps two counters.\<close>

fun shake_loop_basic :: "real \<Rightarrow> sample list \<Rightarrow> nat \<times> nat \<Rightarrow> nat \<times> nat" where
  "shake_loop_basic threshold (p # q # ps) (vm, um) =
     shake_loop_basic threshold (q # ps)
       (let deltaY = pos_y q - pos_y p
        in if \<bar>deltaY\<bar> > threshold
           then (vm + 1, if deltaY < 0 then um + 1 else um)
           else (vm, um))"
| "shake_loop_basic threshold ps c = c"

text \<open>\<open>detachWindow\<close> of basic (1327-1349).\<close>

definition detachWindow_basic :: "window_physics \<Rightarrow> window_physics" where
  "detachWindow_basic s =
     (if isDetached s then s
      else
        let s1 = s\<lparr>isDetached := True, classes := insert ''detached'' (classes s),
                    zIndex := ''9999''\<rparr>;
            s2 = setTimeout RemoveShaking (s1\<lparr>classes := insert ''shaking'' (classes s1)\<rparr>);
            s3 = dispatchEvent WindowDetached s2
        in showNotification ''Window detached! Drag freely anywhere.'' s3)"

definition detectShake_basic :: "window_physics \<Rightarrow> window_physics" where
  "detectShake_basic s =
     (if length (lastPositions s) < 5 then s
      else
        let (vm, um) = shake_loop_basic (shakeThreshold s) (lastPositions s) (0, 0)
        in if vm \<ge> 3 \<and> um \<ge> 2 then detachWindow_basic s else s)"

text \<open>\<open>moveWindowFreely\<close> and \<open>moveOnTaskbarRail\<close> of basic (1413-1436).\<close>

definition moveWindowFreely_basic :: "real \<Rightarrow> real \<Rightarrow> window_physics \<Rightarrow> window_physics" where
  "moveWindowFreely_basic x y s =
     (let maxX = innerWidth s - offsetWidth s;
          maxY = innerHeight s - offsetHeight s;
          x1 = max 0 (min maxX x);
          y1 = max 0 (min maxY y)
      in s\<lparr>style_left := x1, style_top := Some y1, style_position := ''fixed''\<rparr>)"

definition moveOnTaskbarRail_basic :: "real \<Rightarrow> real \<Rightarrow> window_physics \<Rightarrow> window_physics" where
  "moveOnTaskbarRail_basic x y s =
     (let taskbarY = innerHeight s - taskbarHeight s - offsetHeight s;
          maxX = innerWidth s - offsetWidth s;
          x1 = max 0 (min maxX x)
      in s\<lparr>style_left := x1, style_top := Some taskbarY, style_position := ''fixed''\<rparr>)"

text \<open>\<open>startDrag\<close> and \<open>drag\<close> of adv (62-132).\<close>

definition startDrag_adv :: "real \<Rightarrow> mouse \<Rightarrow> window_physics \<Rightarrow> window_physics" where
  "startDrag_adv now e s =
     (let s1 = s\<lparr>isDragging := True, lastPositions := []\<rparr>;
          s2 = s1\<lparr>dragOffset_x := clientX e - rect_left s1,
                   dragOffset_y := clientY e - rect_top s1,
                   lastMouseX := clientX e, lastMouseY := clientY e\<rparr>;
          s3 = recordPosition (clientX e) (clientY e) now s2
      in s3\<lparr>cursor := ''grabbing'', classes := insert ''moving'' (classes s3)\<rparr>)"

definition drag_adv :: "real \<Rightarrow> mouse \<Rightarrow> window_physics \<Rightarrow> window_physics" where
  "drag_adv now e s =
     (if \<not> isDragging s then s
      else
        let s0 = recordPosition (clientX e) (clientY e) now s;
            deltaX = clientX e - lastMouseX s0;
            deltaY = clientY e - lastMouseY s0;
            s1 = (if isDetached s0
                  then s0\<lparr>velocity_x := deltaX * 0.8, velocity_y := deltaY * 0.8\<rparr>
                  else s0);
            s2 = s1\<lparr>lastMouseX := clientX e, lastMouseY := clientY e\<rparr>;
            newX = rect_left s2 + deltaX;
            newY = rect_top s2 + deltaY
        in if isDetached s2 then moveWindowFreely newX newY s2
           else detectShake_adv (moveOnTaskbarRail_adv newX newY s2))"

text \<open>\<open>startDrag\<close> and \<open>drag\<close> of basic (1240-1281).\<close>

definition startDrag_basic :: "real \<Rightarrow> mouse \<Rightarrow> window_physics \<Rightarrow> window_physics" where
  "startDrag_basic now e s =
     (let s1 = s\<lparr>isDragging := True, lastPositions := []\<rparr>;
          s2 = s1\<lparr>dragOffset_x := clientX e - rect_left s1,
                   dragOffset_y := clientY e - rect_top s1\<rparr>;
          s3 = recordPosition (clientX e) (clientY e) now s2
      in s3\<lparr>cursor := ''grabbing'', classes := insert ''moving'' (classes s3)\<rparr>)"

definition drag_basic :: "real \<Rightarrow> mouse \<Rightarrow> window_physics \<Rightarrow> window_physics" where
  "drag_basic now e s =
     (if \<not> isDragging s then s
      else
        let s0 = recordPosition (clientX e) (clientY e) now s
        in if isDetached s0
           then moveWindowFreely_basic (clientX e - dragOffset_x s0)
                  (clientY e - dragOffset_y s0) s0
           else detectShake_basic
                  (moveOnTaskbarRail_basic (clientX e - dragOffset_x s0)
                     (clientY e - dragOffset_y s0) s0))"

text \<open>
  The claim's five conditions, in its words: the vertical deltas of neighbouring
  samples, those that exceed the shake-distance threshold, and among these: at least
  five, at least three upward (negative), cumulative travel over 100, an upward one
  over 35, and two upward ones in a row.
\<close>

definition segment_deltas :: "sample list \<Rightarrow> real list" where
  "segment_deltas ps = map2 (\<lambda>p q. pos_y q - pos_y p) ps (tl ps)"

definition shake_deltas :: "real \<Rightarrow> sample list \<Rightarrow> real list" where
  "shake_deltas threshold ps = filter (\<lambda>d. \<bar>d\<bar> > threshold) (segment_deltas ps)"

fun two_consecutive_upward :: "real list \<Rightarrow> bool" where
  "two_consecutive_upward (d # e # ds) =
     ((d < 0 \<and> e < 0) \<or> two_consecutive_upward (e # ds))"
| "two_consecutive_upward ds = False"

definition five_conditions :: "real \<Rightarrow> sample list \<Rightarrow> bool" where
  "five_conditions threshold ps \<longleftrightarrow>
     length (shake_deltas threshold ps) \<ge> 5 \<and>
     length (filter (\<lambda>d. d < 0) (shake_deltas threshold ps)) \<ge> 3 \<and>
     sum_list (map abs (shake_deltas threshold ps)) > 100 \<and>
     list_ex (\<lambda>d. d < 0 \<and> \<bar>d\<bar> > 35) (shake_deltas threshold ps) \<and>
     two_consecutive_upward (shake_deltas threshold ps)"

text \<open>
  A shake of the docked window of revision adv: grabbed at (200, 500) at time 0, then
  moved up by 40 pixels every 16 ms; \<open>shaking_adv k\<close> is the state after the first
  \<open>k\<close> moves.
\<close>

definition shake_moves :: "(real \<times> mouse) list" where
  "shake_moves =
     map (\<lambda>(t, y). (t, \<lparr>clientX = 200, clientY = y\<rparr>))
       [(16, 460), (32, 420), (48, 380), (64, 340), (80, 300), (96, 260), (112, 220)]"

definition shaking_adv :: "nat \<Rightarrow> window_physics" where
  "shaking_adv k =
     foldl (\<lambda>s (t, e). drag_adv t e s)
       (startDrag_adv 0 \<lparr>clientX = 200, clientY = 500\<rparr> (WindowPhysics_adv chat_window))
       (take k shake_moves)"

text \<open>
  For the proofs: the loop of \<open>detectShake\<close> as a fold over the deltas, and
  whether a list of deltas starts with an upward one.
\<close>

definition shake_fold :: "real \<Rightarrow> real list \<Rightarrow> shake_counters \<Rightarrow> shake_counters" where
  "shake_fold threshold ds a = foldl (\<lambda>a d. shake_body threshold d a) a ds"

definition starts_upward :: "real list \<Rightarrow> bool" where
  "starts_upward ds = (case ds of [] \<Rightarrow> False | d # _ \<Rightarrow> d < 0)"

subsection \<open>Releasing and the other handlers of adv and clean\<close>

text \<open>\<open>calculateVelocity\<close> of adv (263-281), over the last three samples.\<close>

fun velocity_loop :: "sample list \<Rightarrow> real \<times> real \<Rightarrow> real \<times> real" where
  "velocity_loop (p # q # ps) (totalDistance, totalTime) =
     velocity_loop (q # ps)
       (let dx = pos_x q - pos_x p;
            dy = pos_y q - pos_y p;
            distance = sqrt (dx * dx + dy * dy);
            time = pos_time q - pos_time p
        in (totalDistance + distance, totalTime + time))"
| "velocity_loop ps acc = acc"

definition calculateVelocity :: "window_physics \<Rightarrow> real" where
  "calculateVelocity s =
     (if length (lastPositions s) < 2 then 0
      else
        let recent = drop (length (lastPositions s) - 3) (lastPositions s);
            (totalDistance, totalTime) = velocity_loop recent (0, 0)
        in totalDistance / (if totalTime = 0 then 1 else totalTime) * 1000)"

text \<open>\<open>checkForSlamReattach\<close> and \<open>endDrag\<close> of adv (248-261, 134-152).\<close>

definition checkForSlamReattach_adv :: "window_physics \<Rightarrow> window_physics" where
  "checkForSlamReattach_adv s =
     (let taskbarTop = innerHeight s - taskbarHeight s
      in if \<bar>rect_bottom s - taskbarTop\<bar> < 100
         then (if calculateVelocity s > slamVelocityThreshold s
               then reattachWindow_adv s else s)
         else s)"

definition endDrag_adv :: "window_physics \<Rightarrow> window_physics" where
  "endDrag_adv s =
     (if \<not> isDragging s then s
      else
        let s1 = s\<lparr>isDragging := False, cursor := [], classes := classes s - {''moving''}\<rparr>
        in if isDetached s1 then startPhysics (checkForSlamReattach_adv s1)
           else stopPhysics s1)"

text \<open>The \<open>dblclick\<close> listener of adv (38-49), given \<open>e.shiftKey\<close>.\<close>

definition dblclick_adv :: "bool \<Rightarrow> window_physics \<Rightarrow> window_physics" where
  "dblclick_adv shiftKey s =
     (if shiftKey
      then (if \<not> isDetached s then detachWindow_adv s else reattachWindow_adv s)
      else s)"

text \<open>
  \<open>loadWindowPosition\<close> of adv (423-440). The stored entry is absent (\<open>None\<close>) or
  holds the left and top texts and the flag; a text that is not a number makes an
  assignment the browser ignores.
\<close>

record stored_position =
  storedLeft :: "real option"
  storedTop :: "real option"
  storedDetached :: bool

definition loadWindowPosition_adv :: "stored_position option \<Rightarrow> window_physics \<Rightarrow> window_physics" where
  "loadWindowPosition_adv stored s =
     (case stored of
        None \<Rightarrow> s
      | Some p \<Rightarrow>
          let s1 = s\<lparr>style_left := (case storedLeft p of Some l \<Rightarrow> l | None \<Rightarrow> style_left s),
                      style_top := (case storedTop p of Some t \<Rightarrow> Some t | None \<Rightarrow> style_top s)\<rparr>
          in if storedDetached p
             then s1\<lparr>isDetached := True, classes := insert ''detached'' (classes s1),
                     zIndex := ''9999''\<rparr>
             else s1)"

text \<open>
  A pending timeout fires: it leaves the queue and its callback runs. The callbacks
  of adv remove an animation class; those of clean end an effect, and the one queued
  by \<open>snapBack\<close> clears the stretch.
\<close>

definition fire_adv :: "callback \<Rightarrow> window_physics \<Rightarrow> window_physics" where
  "fire_adv cb s =
     (case cb of
        RemoveShaking \<Rightarrow> s\<lparr>classes := classes s - {''shaking''}\<rparr>
      | RemoveReattaching \<Rightarrow> s\<lparr>classes := classes s - {''reattaching''}\<rparr>
      | _ \<Rightarrow> s)"

definition fire_clean :: "callback \<Rightarrow> window_physics \<Rightarrow> window_physics" where
  "fire_clean cb s =
     (case cb of
        EndDetachEffect \<Rightarrow> s\<lparr>transform := TEmpty, transition := ''none''\<rparr>
      | EndReattachEffect \<Rightarrow> s\<lparr>transition := ''none''\<rparr>
      | EndSnapBack \<Rightarrow> s\<lparr>transition := ''none'', isStretching := False, stretchAmount := 0\<rparr>
      | _ \<Rightarrow> s)"

definition unqueue :: "nat \<Rightarrow> window_physics \<Rightarrow> window_physics" where
  "unqueue i s = s\<lparr>timeouts := take i (timeouts s) @ drop (Suc i) (timeouts s)\<rparr>"

text \<open>
  The states a window of revision adv, and of revision clean, can be in: the
  constructor runs on a page on which the window has no timer, and then the listeners,
  the ticks of the timers that are set, and the pending timeouts run in any order.
\<close>

inductive reach_adv :: "window_physics \<Rightarrow> bool" where
  constructed: "intervals el = {} \<Longrightarrow> 0 < nextHandle el \<Longrightarrow> reach_adv (WindowPhysics_adv el)"
| loaded: "reach_adv s \<Longrightarrow> reach_adv (loadWindowPosition_adv stored s)"
| mousedown: "reach_adv s \<Longrightarrow> reach_adv (startDrag_adv now e s)"
| mousemove: "reach_adv s \<Longrightarrow> reach_adv (drag_adv now e s)"
| mouseup: "reach_adv s \<Longrightarrow> reach_adv (endDrag_adv s)"
| dblclick: "reach_adv s \<Longrightarrow> reach_adv (dblclick_adv shiftKey s)"
| tick: "reach_adv s \<Longrightarrow> h \<in> intervals s \<Longrightarrow> reach_adv (updatePhysics_adv s)"
| timeout: "reach_adv s \<Longrightarrow> i < length (timeouts s) \<Longrightarrow>
            reach_adv (fire_adv (timeouts s ! i) (unqueue i s))"

inductive reach_clean :: "window_physics \<Rightarrow> bool" where
  constructed: "intervals el = {} \<Longrightarrow> 0 < nextHandle el \<Longrightarrow> reach_clean (WindowPhysics_clean el)"
| mousedown: "reach_clean s \<Longrightarrow> reach_clean (startDrag_clean e s)"
| mousemove: "reach_clean s \<Longrightarrow> reach_clean (drag_clean e s)"
| mouseup: "reach_clean s \<Longrightarrow> reach_clean (endDrag_clean s)"
| dblclick: "reach_clean s \<Longrightarrow> reach_clean (toggleGravity_clean s)"
| tick: "reach_clean s \<Longrightarrow> h \<in> intervals s \<Longrightarrow> reach_clean (updatePhysics_clean s)"
| timeout: "reach_clean s \<Longrightarrow> i < length (timeouts s) \<Longrightarrow>
            reach_clean (fire_clean (timeouts s ! i) (unqueue i s))"

text \<open>
  The timer invariant: the timers that are set are exactly the one whose handle
  \<open>physicsInterval\<close> holds, if it holds one, and their handles are positive and
  below the next handle to be handed out.
\<close>

definition timer_inv :: "window_physics \<Rightarrow> bool" where
  "timer_inv s \<longleftrightarrow>
     0 < nextHandle s \<and> intervals s = set_option (physicsInterval s) \<and>
     set_option (physicsInterval s) \<subseteq> {0<..<nextHandle s}"

definition timer_fields :: "window_physics \<Rightarrow> nat set \<times> nat option \<times> nat" where
  "timer_fields s = (intervals s, physicsInterval s, nextHandle s)"

text \<open>
  Sample runs: the window of adv detached with Shift and a double click, grabbed and
  released, so that its integrator runs; the window of clean pulled up by 70 pixels and
  double-clicked while held, so that gravity starts its integrator.
\<close>

definition released_adv :: window_physics where
  "released_adv =
     endDrag_adv
       (startDrag_adv 0 \<lparr>clientX = 200, clientY = 500\<rparr>
          (dblclick_adv True (WindowPhysics_adv chat_window)))"

definition falling_clean :: window_physics where
  "falling_clean =
     toggleGravity_clean
       (drag_clean \<lparr>clientX = 200, clientY = 430\<rparr>
          (startDrag_clean \<lparr>clientX = 200, clientY = 500\<rparr> (WindowPhysics_clean chat_window)))"

section \<open>Detaching and reattaching are guarded\<close>

text \<open>
  Claim C8. \<open>detachWindow\<close> on a window that is already detached returns the
  state it was given: the flag, the position, the velocity, the classes and styles
  are unchanged, no timeout is queued, and no further \<open>windowDetached\<close> event is
  dispatched. This holds for the revisions adv, str, grav and clean.
\<close>

theorem detachWindow_idempotent:
  "isDetached s \<Longrightarrow>
     detachWindow_adv s = s \<and> detachWindow_str s = s \<and>
     detachWindow_grav s = s \<and> detachWindow_clean s = s"
  by (simp add: detachWindow_adv_def detachWindow_str_def detachWindow_grav_def
      detachWindow_clean_def)

theorem detachWindow_idempotent_witness:
  "isDetached (detachWindow_str (WindowPhysics_str chat_window)) \<and>
   dispatched (detachWindow_str (WindowPhysics_str chat_window)) = [WindowDetached] \<and>
   detachWindow_adv (detachWindow_str (WindowPhysics_str chat_window))
     = detachWindow_str (WindowPhysics_str chat_window) \<and>
   detachWindow_str (detachWindow_str (WindowPhysics_str chat_window))
     = detachWindow_str (WindowPhysics_str chat_window) \<and>
   detachWindow_grav (detachWindow_str (WindowPhysics_str chat_window))
     = detachWindow_str (WindowPhysics_str chat_window) \<and>
   detachWindow_clean (detachWindow_str (WindowPhysics_str chat_window))
     = detachWindow_str (WindowPhysics_str chat_window)"
proof -
  have d: "isDetached (detachWindow_str (WindowPhysics_str chat_window))"
    by (simp add: detachWindow_str_def WindowPhysics_str_def chat_window_def Let_def
        setTimeout_def resetStretchEffect_str_def showNotification_def dispatchEvent_def)
  have e: "dispatched (detachWindow_str (WindowPhysics_str chat_window)) = [WindowDetached]"
    by (simp add: detachWindow_str_def WindowPhysics_str_def chat_window_def Let_def
        setTimeout_def resetStretchEffect_str_def showNotification_def dispatchEvent_def)
  from detachWindow_idempotent [OF d] d e show ?thesis by simp
qed

text \<open>
  Claim C10. \<open>reattachWindow\<close> on a window that is attached returns the state
  it was given: the flag, the position, the velocity, the gravity flag and the physics
  timer are unchanged and no \<open>windowReattached\<close> event is dispatched. This holds
  for the revisions adv, str, grav and clean.
\<close>

theorem reattachWindow_idempotent:
  "\<not> isDetached s \<Longrightarrow>
     reattachWindow_adv s = s \<and> reattachWindow_str s = s \<and>
     reattachWindow_grav s = s \<and> reattachWindow_clean s = s"
  by (simp add: reattachWindow_adv_def reattachWindow_str_def reattachWindow_grav_def
      reattachWindow_clean_def)

theorem reattachWindow_idempotent_witness:
  "\<not> isDetached (WindowPhysics_clean chat_window) \<and>
   reattachWindow_adv (WindowPhysics_clean chat_window) = WindowPhysics_clean chat_window \<and>
   reattachWindow_str (WindowPhysics_clean chat_window) = WindowPhysics_clean chat_window \<and>
   reattachWindow_grav (WindowPhysics_clean chat_window) = WindowPhysics_clean chat_window \<and>
   reattachWindow_clean (WindowPhysics_clean chat_window) = WindowPhysics_clean chat_window"
proof -
  have a: "\<not> isDetached (WindowPhysics_clean chat_window)"
    by (simp add: WindowPhysics_clean_def)
  from reattachWindow_idempotent [OF a] a show ?thesis by simp
qed

section \<open>The stretch gesture\<close>

lemmas stretch_defs =
  applyStretchEffect_str_def applyStretchEffect_grav_def applyStretchEffect_clean_def
  resetStretchEffect_def resetStretchEffect_str_def moveOnTaskbarRail_def
  moveWindowFreely_def detachWindow_str_def detachWindow_grav_def detachWindow_clean_def
  setTimeout_def showNotification_def dispatchEvent_def Let_def

lemma stretchAmount_drag_str:
  "isDragging s \<Longrightarrow> \<not> isDetached s \<Longrightarrow>
   stretchAmount (drag_str e s) =
     (if stretchStartY s - clientY e > 10
      then min (stretchStartY s - clientY e) (maxStretch s) else 0)"
  by (simp add: drag_str_def stretch_defs)

lemma stretchAmount_drag_grav:
  "isDragging s \<Longrightarrow> \<not> isDetached s \<Longrightarrow>
   stretchAmount (drag_grav e s) =
     (if stretchStartY s - clientY e > 10
      then min (stretchStartY s - clientY e) (maxStretch s) else 0)"
  by (simp add: drag_grav_def stretch_defs)

lemma stretchAmount_drag_clean:
  "isDragging s \<Longrightarrow> \<not> isDetached s \<Longrightarrow>
   stretchAmount (drag_clean e s) =
     (if stretchStartY s - clientY e > 10
      then min (stretchStartY s - clientY e) (maxStretch s) else 0)"
  by (simp add: drag_clean_def stretch_defs)

lemma grabbed_str_facts:
  "isDragging grabbed_str" "\<not> isDetached grabbed_str" "maxStretch grabbed_str = 80"
  "snapThreshold grabbed_str = 60" "stretchStartY grabbed_str = 500"
  by (simp_all add: grabbed_str_def startDrag_str_def WindowPhysics_str_def Let_def)

text \<open>
  Claim C2, as the code has it. While the window is attached, the move handler sets
  the stretch amount to 0 when the pointer is at most 10 pixels above the grab point,
  and to \<open>min upward maxStretch\<close> when it is more than 10 pixels above it; the three
  stretch revisions agree. For a non-negative \<open>maxStretch\<close> the amount lies between 0
  and \<open>maxStretch\<close> and never decreases when the pointer moves further up. It equals
  \<open>min (max 0 upward) maxStretch\<close> when the displacement is at most 0 or more than 10.
\<close>

theorem stretch_amount_gated:
  assumes "isDragging s" and "\<not> isDetached s" and "0 \<le> maxStretch s"
  shows "stretchAmount (drag_str e s) =
           (if stretchStartY s - clientY e > 10
            then min (stretchStartY s - clientY e) (maxStretch s) else 0) \<and>
         stretchAmount (drag_grav e s) = stretchAmount (drag_str e s) \<and>
         stretchAmount (drag_clean e s) = stretchAmount (drag_str e s) \<and>
         0 \<le> stretchAmount (drag_str e s) \<and>
         stretchAmount (drag_str e s) \<le> maxStretch s \<and>
         (clientY e' \<le> clientY e \<longrightarrow>
            stretchAmount (drag_str e s) \<le> stretchAmount (drag_str e' s)) \<and>
         (stretchStartY s - clientY e \<le> 0 \<or> stretchStartY s - clientY e > 10 \<longrightarrow>
            stretchAmount (drag_str e s) =
              min (max 0 (stretchStartY s - clientY e)) (maxStretch s))"
  using assms
  by (auto simp add: stretchAmount_drag_str stretchAmount_drag_grav stretchAmount_drag_clean)

theorem stretch_amount_gated_witness:
  "isDragging grabbed_str \<and> \<not> isDetached grabbed_str \<and> 0 \<le> maxStretch grabbed_str \<and>
   stretchAmount (drag_str small_pull grabbed_str) = 0 \<and>
   stretchAmount (drag_str large_pull grabbed_str) = 30 \<and>
   stretchAmount (drag_grav large_pull grabbed_str) = 30 \<and>
   stretchAmount (drag_clean large_pull grabbed_str) = 30"
  using stretch_amount_gated [OF grabbed_str_facts(1,2), of small_pull large_pull]
    stretch_amount_gated [OF grabbed_str_facts(1,2), of large_pull small_pull]
    grabbed_str_facts
  by (simp add: small_pull_def large_pull_def)

text \<open>
  The claim as stated fails 5 pixels above the grab point: the handler leaves the
  amount at 0, while \<open>min (max 0 upward) maxStretch\<close> is 5.
\<close>

theorem stretch_amount_counterexample:
  "isDragging grabbed_str \<and> \<not> isDetached grabbed_str \<and>
   stretchStartY grabbed_str - clientY small_pull = 5 \<and>
   stretchAmount (drag_str small_pull grabbed_str) = 0 \<and>
   stretchAmount (drag_str small_pull grabbed_str) \<noteq>
     min (max 0 (stretchStartY grabbed_str - clientY small_pull)) (maxStretch grabbed_str)"
  using grabbed_str_facts
  by (simp add: stretchAmount_drag_str small_pull_def)

lemma drag_str_frame:
  "isDragging (drag_str e s) = isDragging s \<and>
   stretchStartY (drag_str e s) = stretchStartY s \<and>
   maxStretch (drag_str e s) = maxStretch s \<and>
   snapThreshold (drag_str e s) = snapThreshold s"
  by (simp add: drag_str_def stretch_defs)

lemma drag_str_stays: "isDetached s \<Longrightarrow> isDetached (drag_str e s)"
  by (simp add: drag_str_def stretch_defs)

lemma drag_str_detaches:
  "isDragging s \<Longrightarrow> \<not> isDetached s \<Longrightarrow> maxStretch s = 80 \<Longrightarrow> snapThreshold s = 60 \<Longrightarrow>
   isDetached (drag_str e s) \<longleftrightarrow> stretchStartY s - clientY e \<ge> 60"
  by (auto simp add: drag_str_def stretch_defs)

lemma drag_grav_frame:
  "isDragging (drag_grav e s) = isDragging s \<and>
   stretchStartY (drag_grav e s) = stretchStartY s \<and>
   maxStretch (drag_grav e s) = maxStretch s \<and>
   snapThreshold (drag_grav e s) = snapThreshold s"
  by (simp add: drag_grav_def stretch_defs)

lemma drag_grav_stays: "isDetached s \<Longrightarrow> isDetached (drag_grav e s)"
  by (simp add: drag_grav_def stretch_defs)

lemma drag_grav_detaches:
  "isDragging s \<Longrightarrow> \<not> isDetached s \<Longrightarrow> maxStretch s = 80 \<Longrightarrow> snapThreshold s = 60 \<Longrightarrow>
   isDetached (drag_grav e s) \<longleftrightarrow> stretchStartY s - clientY e \<ge> 60"
  by (auto simp add: drag_grav_def stretch_defs)

text \<open>
  Over a run of moves the window is detached as soon as one move has been at least 60
  pixels above the grab point, and not before: the flag is never cleared by a move.
\<close>

lemma drags_str_detached:
  "isDragging s \<Longrightarrow> maxStretch s = 80 \<Longrightarrow> snapThreshold s = 60 \<Longrightarrow>
   isDetached (drags_str es s) \<longleftrightarrow>
     isDetached s \<or> (\<exists>e \<in> set es. stretchStartY s - clientY e \<ge> 60)"
proof (induction es arbitrary: s)
  case Nil
  then show ?case by (simp add: drags_str_def)
next
  case (Cons e es)
  have step: "drags_str (e # es) s = drags_str es (drag_str e s)"
    by (simp add: drags_str_def)
  have frame: "isDragging (drag_str e s)" "maxStretch (drag_str e s) = 80"
    "snapThreshold (drag_str e s) = 60" "stretchStartY (drag_str e s) = stretchStartY s"
    using Cons.prems drag_str_frame [of e s] by simp_all
  have one: "isDetached (drag_str e s) \<longleftrightarrow> isDetached s \<or> stretchStartY s - clientY e \<ge> 60"
  proof (cases "isDetached s")
    case True
    then show ?thesis using drag_str_stays by simp
  next
    case False
    then show ?thesis using drag_str_detaches [of s e] Cons.prems by simp
  qed
  show ?case
    unfolding step using Cons.IH [OF frame(1-3)] frame(4) one by auto
qed

lemma drags_grav_detached:
  "isDragging s \<Longrightarrow> maxStretch s = 80 \<Longrightarrow> snapThreshold s = 60 \<Longrightarrow>
   isDetached (drags_grav es s) \<longleftrightarrow>
     isDetached s \<or> (\<exists>e \<in> set es. stretchStartY s - clientY e \<ge> 60)"
proof (induction es arbitrary: s)
  case Nil
  then show ?case by (simp add: drags_grav_def)
next
  case (Cons e es)
  have step: "drags_grav (e # es) s = drags_grav es (drag_grav e s)"
    by (simp add: drags_grav_def)
  have frame: "isDragging (drag_grav e s)" "maxStretch (drag_grav e s) = 80"
    "snapThreshold (drag_grav e s) = 60" "stretchStartY (drag_grav e s) = stretchStartY s"
    using Cons.prems drag_grav_frame [of e s] by simp_all
  have one: "isDetached (drag_grav e s) \<longleftrightarrow> isDetached s \<or> stretchStartY s - clientY e \<ge> 60"
  proof (cases "isDetached s")
    case True
    then show ?thesis using drag_grav_stays by simp
  next
    case False
    then show ?thesis using drag_grav_detaches [of s e] Cons.prems by simp
  qed
  show ?case
    unfolding step using Cons.IH [OF frame(1-3)] frame(4) one by auto
qed

text \<open>
  Claim C5. With \<open>maxStretch = 80\<close> and \<open>snapThreshold = 60\<close>, an attached window
  that is being dragged is detached after the first \<open>k\<close> moves of a run exactly when
  one of those moves was at least 60 pixels above the grab point: the transition
  happens at the move that first reaches 60, in the middle of the gesture (revisions
  str and grav).
\<close>

theorem detach_at_threshold_crossing:
  assumes "isDragging s" and "\<not> isDetached s"
    and "maxStretch s = 80" and "snapThreshold s = 60"
  shows "(isDetached (drags_str (take k es) s) \<longleftrightarrow>
            (\<exists>e \<in> set (take k es). stretchStartY s - clientY e \<ge> 60)) \<and>
         (isDetached (drags_grav (take k es) s) \<longleftrightarrow>
            (\<exists>e \<in> set (take k es). stretchStartY s - clientY e \<ge> 60))"
  using assms drags_str_detached [of s "take k es"] drags_grav_detached [of s "take k es"]
  by simp

text \<open>
  The pull of 70 pixels: still attached after the fourth move (50 pixels), detached by
  the fifth (60 pixels), and detached at the end.
\<close>

theorem detach_at_threshold_crossing_witness:
  "isDragging grabbed_str \<and> \<not> isDetached grabbed_str \<and>
   maxStretch grabbed_str = 80 \<and> snapThreshold grabbed_str = 60 \<and>
   \<not> isDetached (drags_str (take 4 pull_up_70) grabbed_str) \<and>
   isDetached (drags_str (take 5 pull_up_70) grabbed_str) \<and>
   isDetached (drags_str (take 7 pull_up_70) grabbed_str)"
  using detach_at_threshold_crossing [OF grabbed_str_facts(1-4), of 4 pull_up_70]
    detach_at_threshold_crossing [OF grabbed_str_facts(1-4), of 5 pull_up_70]
    detach_at_threshold_crossing [OF grabbed_str_facts(1-4), of 7 pull_up_70]
    grabbed_str_facts
  by (simp add: pull_up_70_def)

section \<open>The integrator\<close>

lemma collide_velocity:
  assumes "0 < friction s" "friction s < 1" "0 < bounce s" "bounce s < 1"
    and "collide x y s = (x1, y1, s1)"
  shows "\<bar>velocity_x s1\<bar> \<le> friction s * \<bar>velocity_x s\<bar>"
    and "\<bar>velocity_y s1\<bar> \<le> friction s * \<bar>velocity_y s\<bar>"
proof -
  have b: "\<bar>v * bounce s\<bar> \<le> \<bar>v\<bar>" for v
    using assms(3,4) by (simp add: abs_mult mult_left_le)
  have f: "\<bar>v * friction s\<bar> = friction s * \<bar>v\<bar>" for v
    using assms(1) by (simp add: abs_mult)
  have fb: "\<bar>v * bounce s * friction s\<bar> \<le> friction s * \<bar>v\<bar>" for v
    using f [of "v * bounce s"] b [of v] assms(1) by (simp add: mult_left_mono)
  show "\<bar>velocity_x s1\<bar> \<le> friction s * \<bar>velocity_x s\<bar>"
    using assms(5) f fb by (auto simp add: collide_def Let_def split: if_splits)
  show "\<bar>velocity_y s1\<bar> \<le> friction s * \<bar>velocity_y s\<bar>"
    using assms(5) f fb by (auto simp add: collide_def Let_def split: if_splits)
qed

lemma collide_frame:
  assumes "collide x y s = (x1, y1, s1)"
  shows "friction s1 = friction s \<and> bounce s1 = bounce s \<and>
         physicsInterval s1 = physicsInterval s \<and> intervals s1 = intervals s \<and>
         isDetached s1 = isDetached s \<and> isDragging s1 = isDragging s"
  using assms by (auto simp add: collide_def Let_def split: if_splits)

lemma stopPhysics_at_rest: "ticking h s \<or> at_rest s \<Longrightarrow> at_rest (stopPhysics s)"
  by (auto simp add: ticking_def at_rest_def stopPhysics_def clearInterval_def Let_def)

lemma stopPhysics_velocity: "velocity_x (stopPhysics s) = 0 \<and> velocity_y (stopPhysics s) = 0"
  by (simp add: stopPhysics_def clearInterval_def Let_def split: option.splits)

lemma stopPhysics_frame: "friction (stopPhysics s) = friction s \<and> bounce (stopPhysics s) = bounce s"
  by (simp add: stopPhysics_def clearInterval_def Let_def split: option.splits)

lemma updatePhysics_str_velocity:
  assumes "0 < friction s" "friction s < 1" "0 < bounce s" "bounce s < 1"
  shows "\<bar>velocity_x (updatePhysics_str s)\<bar> \<le> friction s * \<bar>velocity_x s\<bar> \<and>
         \<bar>velocity_y (updatePhysics_str s)\<bar> \<le> friction s * \<bar>velocity_y s\<bar> \<and>
         friction (updatePhysics_str s) = friction s \<and>
         bounce (updatePhysics_str s) = bounce s"
proof -
  obtain x1 y1 s1 where c:
    "collide (rect_left s + velocity_x s) (rect_top s + velocity_y s) s = (x1, y1, s1)"
    by (metis prod_cases3)
  have nonneg: "0 \<le> friction s * \<bar>velocity_x s\<bar>" "0 \<le> friction s * \<bar>velocity_y s\<bar>"
    using assms(1) by simp_all
  show ?thesis
    using collide_velocity [OF assms c] collide_frame [OF c] nonneg
    by (simp add: updatePhysics_str_def c Let_def stopPhysics_velocity stopPhysics_frame
        moveWindowFreely_def)
qed

lemma updatePhysics_adv_velocity:
  assumes "0 < friction s" "friction s < 1" "0 < bounce s" "bounce s < 1"
  shows "\<bar>velocity_x (updatePhysics_adv s)\<bar> \<le> friction s * \<bar>velocity_x s\<bar> \<and>
         \<bar>velocity_y (updatePhysics_adv s)\<bar> \<le> friction s * \<bar>velocity_y s\<bar> \<and>
         friction (updatePhysics_adv s) = friction s \<and>
         bounce (updatePhysics_adv s) = bounce s"
proof -
  obtain x1 y1 s1 where c:
    "collide (rect_left s + velocity_x s) (rect_top s + velocity_y s) s = (x1, y1, s1)"
    by (metis prod_cases3)
  have nonneg: "0 \<le> friction s * \<bar>velocity_x s\<bar>" "0 \<le> friction s * \<bar>velocity_y s\<bar>"
    using assms(1) by simp_all
  show ?thesis
    using collide_velocity [OF assms c] collide_frame [OF c] nonneg
    by (simp add: updatePhysics_adv_def c Let_def stopPhysics_velocity stopPhysics_frame)
qed

lemma updatePhysics_str_timer:
  assumes "0 < friction s" "friction s < 1" "0 < bounce s" "bounce s < 1" "ticking h s"
  shows "(at_rest (updatePhysics_str s) \<or> ticking h (updatePhysics_str s)) \<and>
         (friction s * \<bar>velocity_x s\<bar> < 0.1 \<and> friction s * \<bar>velocity_y s\<bar> < 0.1
            \<longrightarrow> at_rest (updatePhysics_str s))"
proof -
  obtain x1 y1 s1 where c:
    "collide (rect_left s + velocity_x s) (rect_top s + velocity_y s) s = (x1, y1, s1)"
    by (metis prod_cases3)
  have t1: "ticking h s1"
    using collide_frame [OF c] assms(5) by (simp add: ticking_def)
  have r: "at_rest (stopPhysics s)" "at_rest (stopPhysics s1)"
    using stopPhysics_at_rest assms(5) t1 by blast+
  have m: "ticking h (moveWindowFreely x1 y1 s1)"
    using t1 by (simp add: ticking_def moveWindowFreely_def Let_def)
  show ?thesis
    using collide_velocity [OF assms(1-4) c] r m
    by (auto simp add: updatePhysics_str_def c Let_def)
qed

lemma updatePhysics_adv_timer:
  assumes "0 < friction s" "friction s < 1" "0 < bounce s" "bounce s < 1" "ticking h s"
  shows "(at_rest (updatePhysics_adv s) \<or> ticking h (updatePhysics_adv s)) \<and>
         (friction s * \<bar>velocity_x s\<bar> < 0.1 \<and> friction s * \<bar>velocity_y s\<bar> < 0.1
            \<longrightarrow> at_rest (updatePhysics_adv s))"
proof -
  obtain x1 y1 s1 where c:
    "collide (rect_left s + velocity_x s) (rect_top s + velocity_y s) s = (x1, y1, s1)"
    by (metis prod_cases3)
  have t1: "ticking h s1"
    using collide_frame [OF c] assms(5) by (simp add: ticking_def)
  have r: "at_rest (stopPhysics s)" "at_rest (stopPhysics s1)"
    using stopPhysics_at_rest assms(5) t1 by blast+
  have m: "ticking h (s1\<lparr>style_left := x1, style_top := Some y1\<rparr>)"
    using t1 by (simp add: ticking_def)
  show ?thesis
    using collide_velocity [OF assms(1-4) c] r m
    by (auto simp add: updatePhysics_adv_def c Let_def)
qed

lemma physicsLoop_str_stops:
  "0 < friction s \<Longrightarrow> friction s < 1 \<Longrightarrow> 0 < bounce s \<Longrightarrow> bounce s < 1 \<Longrightarrow> ticking h s \<Longrightarrow>
   friction s ^ Suc n * \<bar>velocity_x s\<bar> < 0.1 \<Longrightarrow> friction s ^ Suc n * \<bar>velocity_y s\<bar> < 0.1 \<Longrightarrow>
   \<exists>k s'. physicsLoop_str k s = Some s' \<and> at_rest s'"
proof (induction n arbitrary: s)
  case 0
  have "at_rest (updatePhysics_str s)"
    using updatePhysics_str_timer [OF "0.prems"(1-5)] "0.prems"(6,7) by simp
  moreover have "intervals s \<noteq> {}"
    using "0.prems"(5) by (simp add: ticking_def)
  ultimately have "physicsLoop_str (Suc 0) s = Some (updatePhysics_str s)"
    by (simp add: at_rest_def)
  then show ?case using \<open>at_rest (updatePhysics_str s)\<close> by blast
next
  case (Suc n)
  let ?t = "updatePhysics_str s"
  have run: "intervals s \<noteq> {}"
    using Suc.prems(5) by (simp add: ticking_def)
  have v: "\<bar>velocity_x ?t\<bar> \<le> friction s * \<bar>velocity_x s\<bar>"
    "\<bar>velocity_y ?t\<bar> \<le> friction s * \<bar>velocity_y s\<bar>"
    "friction ?t = friction s" "bounce ?t = bounce s"
    using updatePhysics_str_velocity [OF Suc.prems(1-4)] by simp_all
  consider (rest) "at_rest ?t" | (go) "ticking h ?t"
    using updatePhysics_str_timer [OF Suc.prems(1-5)] by blast
  then show ?case
  proof cases
    case rest
    then have "physicsLoop_str (Suc 0) s = Some ?t"
      using run by (simp add: at_rest_def)
    then show ?thesis using rest by blast
  next
    case go
    have p: "0 \<le> friction s ^ Suc n" using Suc.prems(1) by simp
    have "friction s ^ Suc n * \<bar>velocity_x ?t\<bar>
            \<le> friction s ^ Suc n * (friction s * \<bar>velocity_x s\<bar>)"
      using v(1) p by (rule mult_left_mono)
    also have "\<dots> = friction s ^ Suc (Suc n) * \<bar>velocity_x s\<bar>"
      by (simp only: power_Suc mult_ac)
    finally have x: "friction ?t ^ Suc n * \<bar>velocity_x ?t\<bar> < 0.1"
      using Suc.prems(6) by (simp only: v(3))
    have "friction s ^ Suc n * \<bar>velocity_y ?t\<bar>
            \<le> friction s ^ Suc n * (friction s * \<bar>velocity_y s\<bar>)"
      using v(2) p by (rule mult_left_mono)
    also have "\<dots> = friction s ^ Suc (Suc n) * \<bar>velocity_y s\<bar>"
      by (simp only: power_Suc mult_ac)
    finally have y: "friction ?t ^ Suc n * \<bar>velocity_y ?t\<bar> < 0.1"
      using Suc.prems(7) by (simp only: v(3))
    have "\<exists>k s'. physicsLoop_str k ?t = Some s' \<and> at_rest s'"
      using Suc.IH [of ?t] Suc.prems(1-4) v(3,4) go x y by simp
    then obtain k s' where "physicsLoop_str k ?t = Some s'" "at_rest s'" by blast
    then have "physicsLoop_str (Suc k) s = Some s'" using run by simp
    then show ?thesis using \<open>at_rest s'\<close> by blast
  qed
qed

lemma enough_steps:
  fixes f a b :: real
  assumes "0 < f" "f < 1"
  shows "\<exists>n. f ^ Suc n * \<bar>a\<bar> < 0.1 \<and> f ^ Suc n * \<bar>b\<bar> < 0.1"
proof -
  define y where "y = 0.1 / (1 + \<bar>a\<bar> + \<bar>b\<bar>)"
  have ypos: "0 < y" by (simp add: y_def)
  obtain n where n: "f ^ n < y"
    using real_arch_pow_inv [OF ypos assms(2)] by blast
  have "f ^ Suc n \<le> f ^ n"
    using assms by (simp add: mult_left_le_one_le)
  then have lt: "f ^ Suc n < y" using n by simp
  have pos: "0 \<le> f ^ Suc n" using assms(1) by simp
  have ya: "y * \<bar>a\<bar> < 0.1"
  proof -
    have "y * \<bar>a\<bar> = 0.1 * (\<bar>a\<bar> / (1 + \<bar>a\<bar> + \<bar>b\<bar>))" by (simp add: y_def)
    also have "\<dots> < 0.1 * 1" by (intro mult_strict_left_mono) simp_all
    finally show ?thesis by simp
  qed
  have yb: "y * \<bar>b\<bar> < 0.1"
  proof -
    have "y * \<bar>b\<bar> = 0.1 * (\<bar>b\<bar> / (1 + \<bar>a\<bar> + \<bar>b\<bar>))" by (simp add: y_def)
    also have "\<dots> < 0.1 * 1" by (intro mult_strict_left_mono) simp_all
    finally show ?thesis by simp
  qed
  have "f ^ Suc n * \<bar>a\<bar> \<le> y * \<bar>a\<bar>"
    using lt by (intro mult_right_mono) simp_all
  moreover have "f ^ Suc n * \<bar>b\<bar> \<le> y * \<bar>b\<bar>"
    using lt by (intro mult_right_mono) simp_all
  ultimately show ?thesis using ya yb by (intro exI [of _ n]) linarith
qed

lemma speed_scaled:
  fixes f :: real
  assumes "0 \<le> f" "\<bar>vx'\<bar> \<le> f * \<bar>vx\<bar>" "\<bar>vy'\<bar> \<le> f * \<bar>vy\<bar>"
  shows "sqrt (vx' * vx' + vy' * vy') \<le> f * sqrt (vx * vx + vy * vy)"
proof -
  have "\<bar>vx'\<bar> \<le> \<bar>f * vx\<bar>" using assms(1,2) by (simp add: abs_mult)
  then have x: "vx'\<^sup>2 \<le> (f * vx)\<^sup>2" by (simp only: abs_le_square_iff)
  have "\<bar>vy'\<bar> \<le> \<bar>f * vy\<bar>" using assms(1,3) by (simp add: abs_mult)
  then have y: "vy'\<^sup>2 \<le> (f * vy)\<^sup>2" by (simp only: abs_le_square_iff)
  have "vx' * vx' + vy' * vy' = vx'\<^sup>2 + vy'\<^sup>2" by (simp add: power2_eq_square)
  also have "\<dots> \<le> (f * vx)\<^sup>2 + (f * vy)\<^sup>2" using x y by (rule add_mono)
  also have "\<dots> = f\<^sup>2 * (vx * vx + vy * vy)"
    by (simp add: power2_eq_square algebra_simps)
  finally have "sqrt (vx' * vx' + vy' * vy') \<le> sqrt (f\<^sup>2 * (vx * vx + vy * vy))"
    by (rule real_sqrt_le_mono)
  also have "\<dots> = f * sqrt (vx * vx + vy * vy)"
    using assms(1) by (simp add: real_sqrt_mult)
  finally show ?thesis .
qed

lemma physicsLoop_adv_stops:
  "0 < friction s \<Longrightarrow> friction s < 1 \<Longrightarrow> 0 < bounce s \<Longrightarrow> bounce s < 1 \<Longrightarrow> ticking h s \<Longrightarrow>
   friction s ^ Suc n * \<bar>velocity_x s\<bar> < 0.1 \<Longrightarrow> friction s ^ Suc n * \<bar>velocity_y s\<bar> < 0.1 \<Longrightarrow>
   \<exists>k s'. physicsLoop_adv k s = Some s' \<and> at_rest s'"
proof (induction n arbitrary: s)
  case 0
  have "at_rest (updatePhysics_adv s)"
    using updatePhysics_adv_timer [OF "0.prems"(1-5)] "0.prems"(6,7) by simp
  moreover have "intervals s \<noteq> {}"
    using "0.prems"(5) by (simp add: ticking_def)
  ultimately have "physicsLoop_adv (Suc 0) s = Some (updatePhysics_adv s)"
    by (simp add: at_rest_def)
  then show ?case using \<open>at_rest (updatePhysics_adv s)\<close> by blast
next
  case (Suc n)
  let ?t = "updatePhysics_adv s"
  have run: "intervals s \<noteq> {}"
    using Suc.prems(5) by (simp add: ticking_def)
  have v: "\<bar>velocity_x ?t\<bar> \<le> friction s * \<bar>velocity_x s\<bar>"
    "\<bar>velocity_y ?t\<bar> \<le> friction s * \<bar>velocity_y s\<bar>"
    "friction ?t = friction s" "bounce ?t = bounce s"
    using updatePhysics_adv_velocity [OF Suc.prems(1-4)] by simp_all
  consider (rest) "at_rest ?t" | (go) "ticking h ?t"
    using updatePhysics_adv_timer [OF Suc.prems(1-5)] by blast
  then show ?case
  proof cases
    case rest
    then have "physicsLoop_adv (Suc 0) s = Some ?t"
      using run by (simp add: at_rest_def)
    then show ?thesis using rest by blast
  next
    case go
    have p: "0 \<le> friction s ^ Suc n" using Suc.prems(1) by simp
    have "friction s ^ Suc n * \<bar>velocity_x ?t\<bar>
            \<le> friction s ^ Suc n * (friction s * \<bar>velocity_x s\<bar>)"
      using v(1) p by (rule mult_left_mono)
    also have "\<dots> = friction s ^ Suc (Suc n) * \<bar>velocity_x s\<bar>"
      by (simp only: power_Suc mult_ac)
    finally have x: "friction ?t ^ Suc n * \<bar>velocity_x ?t\<bar> < 0.1"
      using Suc.prems(6) by (simp only: v(3))
    have "friction s ^ Suc n * \<bar>velocity_y ?t\<bar>
            \<le> friction s ^ Suc n * (friction s * \<bar>velocity_y s\<bar>)"
      using v(2) p by (rule mult_left_mono)
    also have "\<dots> = friction s ^ Suc (Suc n) * \<bar>velocity_y s\<bar>"
      by (simp only: power_Suc mult_ac)
    finally have y: "friction ?t ^ Suc n * \<bar>velocity_y ?t\<bar> < 0.1"
      using Suc.prems(7) by (simp only: v(3))
    have "\<exists>k s'. physicsLoop_adv k ?t = Some s' \<and> at_rest s'"
      using Suc.IH [of ?t] Suc.prems(1-4) v(3,4) go x y by simp
    then obtain k s' where "physicsLoop_adv k ?t = Some s'" "at_rest s'" by blast
    then have "physicsLoop_adv (Suc k) s = Some s'" using run by simp
    then show ?thesis using \<open>at_rest s'\<close> by blast
  qed
qed

lemma speed_nonneg: "0 \<le> speed s"
  by (simp add: speed_def)

lemma damped_ticking: "ticking h s \<Longrightarrow> ticking h (damped s)"
proof -
  assume t: "ticking h s"
  have "collide (rect_left s + velocity_x s) (rect_top s + velocity_y s) s =
          (fst (collide (rect_left s + velocity_x s) (rect_top s + velocity_y s) s),
           fst (snd (collide (rect_left s + velocity_x s) (rect_top s + velocity_y s) s)),
           damped s)"
    by (simp add: damped_def)
  then show ?thesis using collide_frame t by (simp add: ticking_def)
qed

lemma ticking_not_at_rest: "ticking h s \<Longrightarrow> \<not> at_rest s"
  by (simp add: ticking_def at_rest_def)

lemma updatePhysics_str_unfold:
  "isDetached s \<Longrightarrow> \<not> isDragging s \<Longrightarrow>
   updatePhysics_str s =
     (if \<bar>velocity_x (damped s)\<bar> < 0.1 \<and> \<bar>velocity_y (damped s)\<bar> < 0.1
      then stopPhysics (damped s)
      else moveWindowFreely
             (fst (collide (rect_left s + velocity_x s) (rect_top s + velocity_y s) s))
             (fst (snd (collide (rect_left s + velocity_x s) (rect_top s + velocity_y s) s)))
             (damped s))"
  by (simp add: updatePhysics_str_def damped_def Let_def split_def)

lemma updatePhysics_adv_unfold:
  "isDetached s \<Longrightarrow> \<not> isDragging s \<Longrightarrow>
   updatePhysics_adv s =
     (if \<bar>velocity_x (damped s)\<bar> < 0.1 \<and> \<bar>velocity_y (damped s)\<bar> < 0.1
      then stopPhysics (damped s)
      else (damped s)
             \<lparr>style_left :=
                fst (collide (rect_left s + velocity_x s) (rect_top s + velocity_y s) s),
              style_top :=
                Some (fst (snd (collide (rect_left s + velocity_x s)
                                  (rect_top s + velocity_y s) s)))\<rparr>)"
  by (simp add: updatePhysics_adv_def damped_def Let_def split_def)

lemma updatePhysics_str_threshold:
  assumes "ticking h s" "isDetached s" "\<not> isDragging s"
  shows "(at_rest (updatePhysics_str s) \<longleftrightarrow>
            \<bar>velocity_x (damped s)\<bar> < 0.1 \<and> \<bar>velocity_y (damped s)\<bar> < 0.1) \<and>
         (\<not> at_rest (updatePhysics_str s) \<longrightarrow>
            ticking h (updatePhysics_str s) \<and>
            velocity_x (updatePhysics_str s) = velocity_x (damped s) \<and>
            velocity_y (updatePhysics_str s) = velocity_y (damped s))"
proof (cases "\<bar>velocity_x (damped s)\<bar> < 0.1 \<and> \<bar>velocity_y (damped s)\<bar> < 0.1")
  case True
  have u: "updatePhysics_str s = stopPhysics (damped s)"
    unfolding updatePhysics_str_unfold [OF assms(2,3)] by (rule if_P [OF True])
  have "at_rest (stopPhysics (damped s))"
    by (rule stopPhysics_at_rest [OF disjI1, OF damped_ticking [OF assms(1)]])
  then show ?thesis using True by (simp add: u)
next
  case False
  let ?c = "collide (rect_left s + velocity_x s) (rect_top s + velocity_y s) s"
  have u: "updatePhysics_str s = moveWindowFreely (fst ?c) (fst (snd ?c)) (damped s)"
    unfolding updatePhysics_str_unfold [OF assms(2,3)] by (rule if_not_P [OF False])
  have t: "ticking h (updatePhysics_str s)"
    using damped_ticking [OF assms(1)] by (simp add: u ticking_def moveWindowFreely_def Let_def)
  have v: "velocity_x (updatePhysics_str s) = velocity_x (damped s)"
    "velocity_y (updatePhysics_str s) = velocity_y (damped s)"
    by (simp_all add: u moveWindowFreely_def Let_def)
  show ?thesis using False t v ticking_not_at_rest [OF t] by simp
qed

lemma updatePhysics_adv_threshold:
  assumes "ticking h s" "isDetached s" "\<not> isDragging s"
  shows "(at_rest (updatePhysics_adv s) \<longleftrightarrow>
            \<bar>velocity_x (damped s)\<bar> < 0.1 \<and> \<bar>velocity_y (damped s)\<bar> < 0.1) \<and>
         (\<not> at_rest (updatePhysics_adv s) \<longrightarrow>
            ticking h (updatePhysics_adv s) \<and>
            velocity_x (updatePhysics_adv s) = velocity_x (damped s) \<and>
            velocity_y (updatePhysics_adv s) = velocity_y (damped s))"
proof (cases "\<bar>velocity_x (damped s)\<bar> < 0.1 \<and> \<bar>velocity_y (damped s)\<bar> < 0.1")
  case True
  have u: "updatePhysics_adv s = stopPhysics (damped s)"
    unfolding updatePhysics_adv_unfold [OF assms(2,3)] by (rule if_P [OF True])
  have "at_rest (stopPhysics (damped s))"
    by (rule stopPhysics_at_rest [OF disjI1, OF damped_ticking [OF assms(1)]])
  then show ?thesis using True by (simp add: u)
next
  case False
  let ?c = "collide (rect_left s + velocity_x s) (rect_top s + velocity_y s) s"
  have u: "updatePhysics_adv s =
             (damped s)\<lparr>style_left := fst ?c, style_top := Some (fst (snd ?c))\<rparr>"
    unfolding updatePhysics_adv_unfold [OF assms(2,3)] by (rule if_not_P [OF False])
  have t: "ticking h (updatePhysics_adv s)"
    using damped_ticking [OF assms(1)] by (simp add: u ticking_def)
  have v: "velocity_x (updatePhysics_adv s) = velocity_x (damped s)"
    "velocity_y (updatePhysics_adv s) = velocity_y (damped s)"
    by (simp_all add: u)
  show ?thesis using False t v ticking_not_at_rest [OF t] by simp
qed

text \<open>
  Claim C3, as the code has it. The revisions adv and str have no gravity. With
  \<open>bounce\<close> and \<open>friction\<close> strictly between 0 and 1, a physics step
  strictly decreases a non-zero speed and leaves a zero speed at zero. A step of a
  running integrator on a detached window that is not dragged ends at rest, with the
  timer cleared and the velocity exactly (0, 0), if and only if after the bounce and
  the friction of that step \<open>|vx| < 0.1\<close> and \<open>|vy| < 0.1\<close>; otherwise
  the timer keeps running, with the velocity the bounce and the friction left. From
  any velocity, the timer loop returns after finitely many ticks, at rest.
\<close>

theorem integrator_dissipates:
  assumes "0 < friction s" and "friction s < 1" and "0 < bounce s" and "bounce s < 1"
  shows "(0 < speed s \<longrightarrow>
            speed (updatePhysics_str s) < speed s \<and> speed (updatePhysics_adv s) < speed s) \<and>
         (speed s = 0 \<longrightarrow>
            speed (updatePhysics_str s) = 0 \<and> speed (updatePhysics_adv s) = 0) \<and>
         (ticking h s \<and> isDetached s \<and> \<not> isDragging s \<longrightarrow>
            (at_rest (updatePhysics_str s) \<longleftrightarrow>
               \<bar>velocity_x (damped s)\<bar> < 0.1 \<and> \<bar>velocity_y (damped s)\<bar> < 0.1) \<and>
            (at_rest (updatePhysics_adv s) \<longleftrightarrow>
               \<bar>velocity_x (damped s)\<bar> < 0.1 \<and> \<bar>velocity_y (damped s)\<bar> < 0.1) \<and>
            (\<not> at_rest (updatePhysics_str s) \<longrightarrow>
               ticking h (updatePhysics_str s) \<and>
               velocity_x (updatePhysics_str s) = velocity_x (damped s) \<and>
               velocity_y (updatePhysics_str s) = velocity_y (damped s)) \<and>
            (\<not> at_rest (updatePhysics_adv s) \<longrightarrow>
               ticking h (updatePhysics_adv s) \<and>
               velocity_x (updatePhysics_adv s) = velocity_x (damped s) \<and>
               velocity_y (updatePhysics_adv s) = velocity_y (damped s))) \<and>
         (ticking h s \<longrightarrow>
            (\<exists>k s'. physicsLoop_str k s = Some s' \<and> at_rest s') \<and>
            (\<exists>k s'. physicsLoop_adv k s = Some s' \<and> at_rest s'))"
proof -
  have f0: "0 \<le> friction s" using assms(1) by simp
  have a: "speed (updatePhysics_str s) \<le> friction s * speed s"
    unfolding speed_def
    using updatePhysics_str_velocity [OF assms] by (intro speed_scaled [OF f0]) simp_all
  have b: "speed (updatePhysics_adv s) \<le> friction s * speed s"
    unfolding speed_def
    using updatePhysics_adv_velocity [OF assms] by (intro speed_scaled [OF f0]) simp_all
  have c: "friction s * speed s < speed s" if "0 < speed s"
    using that assms(2) by simp
  obtain n where n: "friction s ^ Suc n * \<bar>velocity_x s\<bar> < 0.1"
    "friction s ^ Suc n * \<bar>velocity_y s\<bar> < 0.1"
    using enough_steps [OF assms(1,2), of "velocity_x s" "velocity_y s"] by (elim exE conjE)
  have d: "\<exists>k s'. physicsLoop_str k s = Some s' \<and> at_rest s'" if "ticking h s"
    using physicsLoop_str_stops [OF assms that n] .
  have e: "\<exists>k s'. physicsLoop_adv k s = Some s' \<and> at_rest s'" if "ticking h s"
    using physicsLoop_adv_stops [OF assms that n] .
  have z: "speed (updatePhysics_str s) = 0 \<and> speed (updatePhysics_adv s) = 0"
    if "speed s = 0"
    using a b that speed_nonneg [of "updatePhysics_str s"] speed_nonneg [of "updatePhysics_adv s"]
    by simp
  have p: "0 < speed s \<longrightarrow>
             speed (updatePhysics_str s) < speed s \<and> speed (updatePhysics_adv s) < speed s"
  proof
    assume "0 < speed s"
    from c [OF this] a b
    show "speed (updatePhysics_str s) < speed s \<and> speed (updatePhysics_adv s) < speed s"
      by simp
  qed
  have t: "ticking h s \<and> isDetached s \<and> \<not> isDragging s \<longrightarrow>
            (at_rest (updatePhysics_str s) \<longleftrightarrow>
               \<bar>velocity_x (damped s)\<bar> < 0.1 \<and> \<bar>velocity_y (damped s)\<bar> < 0.1) \<and>
            (at_rest (updatePhysics_adv s) \<longleftrightarrow>
               \<bar>velocity_x (damped s)\<bar> < 0.1 \<and> \<bar>velocity_y (damped s)\<bar> < 0.1) \<and>
            (\<not> at_rest (updatePhysics_str s) \<longrightarrow>
               ticking h (updatePhysics_str s) \<and>
               velocity_x (updatePhysics_str s) = velocity_x (damped s) \<and>
               velocity_y (updatePhysics_str s) = velocity_y (damped s)) \<and>
            (\<not> at_rest (updatePhysics_adv s) \<longrightarrow>
               ticking h (updatePhysics_adv s) \<and>
               velocity_x (updatePhysics_adv s) = velocity_x (damped s) \<and>
               velocity_y (updatePhysics_adv s) = velocity_y (damped s))"
  proof
    assume h: "ticking h s \<and> isDetached s \<and> \<not> isDragging s"
    then have h': "ticking h s" "isDetached s" "\<not> isDragging s" by simp_all
    from updatePhysics_str_threshold [OF h'] updatePhysics_adv_threshold [OF h']
    show "(at_rest (updatePhysics_str s) \<longleftrightarrow>
               \<bar>velocity_x (damped s)\<bar> < 0.1 \<and> \<bar>velocity_y (damped s)\<bar> < 0.1) \<and>
            (at_rest (updatePhysics_adv s) \<longleftrightarrow>
               \<bar>velocity_x (damped s)\<bar> < 0.1 \<and> \<bar>velocity_y (damped s)\<bar> < 0.1) \<and>
            (\<not> at_rest (updatePhysics_str s) \<longrightarrow>
               ticking h (updatePhysics_str s) \<and>
               velocity_x (updatePhysics_str s) = velocity_x (damped s) \<and>
               velocity_y (updatePhysics_str s) = velocity_y (damped s)) \<and>
            (\<not> at_rest (updatePhysics_adv s) \<longrightarrow>
               ticking h (updatePhysics_adv s) \<and>
               velocity_x (updatePhysics_adv s) = velocity_x (damped s) \<and>
               velocity_y (updatePhysics_adv s) = velocity_y (damped s))"
      by (elim conjE) (intro conjI; assumption)
  qed
  have l: "ticking h s \<longrightarrow>
            (\<exists>k s'. physicsLoop_str k s = Some s' \<and> at_rest s') \<and>
            (\<exists>k s'. physicsLoop_adv k s = Some s' \<and> at_rest s')"
    using d e by (intro impI conjI)
  have z': "speed s = 0 \<longrightarrow>
            speed (updatePhysics_str s) = 0 \<and> speed (updatePhysics_adv s) = 0"
    using z by (intro impI)
  from p z' t l show ?thesis by (intro conjI)
qed

lemmas run_defs =
  WindowPhysics_str_def chat_window_def detachWindow_str_def startPhysics_def
  stopPhysics_def setInterval_def clearInterval_def moveWindowFreely_def
  resetStretchEffect_str_def setTimeout_def showNotification_def dispatchEvent_def
  rect_left_def rect_top_def Let_def

lemma resting_str_facts:
  "friction resting_str = 0.95" "bounce resting_str = 0.3" "ticking 1 resting_str"
  "velocity_x resting_str = 0" "velocity_y resting_str = 0"
  "isDetached resting_str" "\<not> isDragging resting_str"
  by (simp_all add: resting_str_def ticking_def run_defs)

lemma at_right_edge_str_facts:
  "friction at_right_edge_str = 0.95" "bounce at_right_edge_str = 0.3"
  "velocity_x at_right_edge_str = 5" "velocity_y at_right_edge_str = 0"
  "isDetached at_right_edge_str" "\<not> isDragging at_right_edge_str"
  "rect_left at_right_edge_str = 960" "innerWidth at_right_edge_str = 1280"
  "offsetWidth at_right_edge_str = 320"
  by (simp_all add: at_right_edge_str_def run_defs)

lemma drifting_str_facts:
  "friction drifting_str = 0.95" "bounce drifting_str = 0.3" "ticking 1 drifting_str"
  "velocity_x drifting_str = 0.12" "velocity_y drifting_str = 0"
  "isDetached drifting_str" "\<not> isDragging drifting_str"
  "style_left drifting_str = 400" "style_top drifting_str = Some 100"
  "innerWidth drifting_str = 1280" "offsetWidth drifting_str = 320"
  "innerHeight drifting_str = 720" "offsetHeight drifting_str = 240"
  by (simp_all add: drifting_str_def ticking_def run_defs)

text \<open>
  A step in free flight: away from the edges of the viewport and with a horizontal
  velocity that friction leaves at 0.1 or more, the window moves by its velocity and
  the velocity is scaled by \<open>friction\<close>; the timer keeps running.
\<close>

lemma glide_str:
  assumes "ticking h s" and "isDetached s" and "\<not> isDragging s"
    and "style_top s = Some t" and "velocity_y s = 0"
    and "0 < t" and "t < innerHeight s - offsetHeight s"
    and "0 < style_left s + velocity_x s"
    and "style_left s + velocity_x s < innerWidth s - offsetWidth s"
    and "0.1 \<le> \<bar>velocity_x s * friction s\<bar>"
  shows "ticking h (updatePhysics_str s) \<and> isDetached (updatePhysics_str s) \<and>
         \<not> isDragging (updatePhysics_str s) \<and>
         style_top (updatePhysics_str s) = Some t \<and> velocity_y (updatePhysics_str s) = 0 \<and>
         velocity_x (updatePhysics_str s) = velocity_x s * friction s \<and>
         style_left (updatePhysics_str s) = style_left s + velocity_x s \<and>
         friction (updatePhysics_str s) = friction s \<and>
         bounce (updatePhysics_str s) = bounce s \<and>
         innerWidth (updatePhysics_str s) = innerWidth s \<and>
         offsetWidth (updatePhysics_str s) = offsetWidth s \<and>
         innerHeight (updatePhysics_str s) = innerHeight s \<and>
         offsetHeight (updatePhysics_str s) = offsetHeight s"
proof -
  let ?c = "collide (rect_left s + velocity_x s) (rect_top s + velocity_y s) s"
  have d: "fst ?c = style_left s + velocity_x s" "fst (snd ?c) = t"
    "velocity_x (damped s) = velocity_x s * friction s" "velocity_y (damped s) = 0"
    "isDetached (damped s)" "\<not> isDragging (damped s)" "friction (damped s) = friction s"
    "bounce (damped s) = bounce s"
    "innerWidth (damped s) = innerWidth s" "offsetWidth (damped s) = offsetWidth s"
    "innerHeight (damped s) = innerHeight s" "offsetHeight (damped s) = offsetHeight s"
    using assms(2,3,6-9)
    by (simp_all add: damped_def collide_def Let_def split_def rect_left_def rect_top_def
        assms(4,5))
  have n: "\<not> (\<bar>velocity_x (damped s)\<bar> < 0.1 \<and> \<bar>velocity_y (damped s)\<bar> < 0.1)"
    using assms(10) by (simp add: d(3))
  have u: "updatePhysics_str s = moveWindowFreely (fst ?c) (fst (snd ?c)) (damped s)"
    unfolding updatePhysics_str_unfold [OF assms(2,3)] by (rule if_not_P [OF n])
  have t: "ticking h (updatePhysics_str s)"
    using damped_ticking [OF assms(1)] by (simp add: u ticking_def moveWindowFreely_def Let_def)
  have m: "isDetached (updatePhysics_str s)" "\<not> isDragging (updatePhysics_str s)"
    "style_top (updatePhysics_str s) = Some t" "velocity_y (updatePhysics_str s) = 0"
    "velocity_x (updatePhysics_str s) = velocity_x s * friction s"
    "style_left (updatePhysics_str s) = style_left s + velocity_x s"
    "friction (updatePhysics_str s) = friction s"
    "bounce (updatePhysics_str s) = bounce s"
    "innerWidth (updatePhysics_str s) = innerWidth s"
    "offsetWidth (updatePhysics_str s) = offsetWidth s"
    "innerHeight (updatePhysics_str s) = innerHeight s"
    "offsetHeight (updatePhysics_str s) = offsetHeight s"
    using assms(6-9) by (simp_all add: u moveWindowFreely_def Let_def d)
  from t m show ?thesis by (intro conjI)
qed

lemma drifting_str_glides:
  "ticking 1 (updatePhysics_str drifting_str)"
  "ticking 1 (updatePhysics_str (updatePhysics_str drifting_str))"
  "ticking 1 (updatePhysics_str (updatePhysics_str (updatePhysics_str drifting_str)))"
  "at_rest (updatePhysics_str (updatePhysics_str (updatePhysics_str
      (updatePhysics_str drifting_str))))"
proof -
  let ?s1 = "updatePhysics_str drifting_str"
  let ?s2 = "updatePhysics_str ?s1"
  let ?s3 = "updatePhysics_str ?s2"
  have g1: "ticking 1 ?s1 \<and> isDetached ?s1 \<and> \<not> isDragging ?s1 \<and>
            style_top ?s1 = Some 100 \<and> velocity_y ?s1 = 0 \<and>
            velocity_x ?s1 = 0.114 \<and> style_left ?s1 = 400.12 \<and> friction ?s1 = 0.95 \<and> bounce ?s1 = 0.3 \<and>
            innerWidth ?s1 = 1280 \<and> offsetWidth ?s1 = 320 \<and>
            innerHeight ?s1 = 720 \<and> offsetHeight ?s1 = 240"
    using glide_str [of 1 drifting_str 100] by (simp add: drifting_str_facts del: One_nat_def)
  have g2: "ticking 1 ?s2 \<and> isDetached ?s2 \<and> \<not> isDragging ?s2 \<and>
            style_top ?s2 = Some 100 \<and> velocity_y ?s2 = 0 \<and>
            velocity_x ?s2 = 0.1083 \<and> style_left ?s2 = 400.234 \<and> friction ?s2 = 0.95 \<and> bounce ?s2 = 0.3 \<and>
            innerWidth ?s2 = 1280 \<and> offsetWidth ?s2 = 320 \<and>
            innerHeight ?s2 = 720 \<and> offsetHeight ?s2 = 240"
    using glide_str [of 1 ?s1 100] g1 by (simp del: One_nat_def)
  have g3: "ticking 1 ?s3 \<and> isDetached ?s3 \<and> \<not> isDragging ?s3 \<and>
            style_top ?s3 = Some 100 \<and> velocity_y ?s3 = 0 \<and>
            velocity_x ?s3 = 0.102885 \<and> style_left ?s3 = 400.3423 \<and> friction ?s3 = 0.95 \<and> bounce ?s3 = 0.3 \<and>
            innerWidth ?s3 = 1280 \<and> offsetWidth ?s3 = 320 \<and>
            innerHeight ?s3 = 720 \<and> offsetHeight ?s3 = 240"
    using glide_str [of 1 ?s2 100] g2 by (simp del: One_nat_def)
  have r: "at_rest (updatePhysics_str ?s3)"
    using updatePhysics_str_timer [of ?s3 1] g3 by (simp del: One_nat_def)
  from g1 g2 g3 r show "ticking 1 ?s1" "ticking 1 ?s2" "ticking 1 ?s3"
    "at_rest (updatePhysics_str ?s3)" by simp_all
qed

lemma ticking_intervals: "ticking h s \<Longrightarrow> intervals s \<noteq> {}"
  by (simp add: ticking_def)

lemma at_rest_intervals: "at_rest s \<Longrightarrow> intervals s = {}"
  by (simp add: at_rest_def)

lemma drifting_str_run:
  "physicsLoop_str 3 drifting_str = None"
  "physicsLoop_str 4 drifting_str =
     Some (updatePhysics_str (updatePhysics_str (updatePhysics_str
       (updatePhysics_str drifting_str))))"
  using drifting_str_glides(1-3) [THEN ticking_intervals]
    drifting_str_glides(4) [THEN at_rest_intervals]
    drifting_str_facts(3) [THEN ticking_intervals]
  by (simp_all add: numeral_3_eq_3 numeral_Bit0 [of "Num.Bit0 Num.One"] eval_nat_numeral)

text \<open>
  The claim as stated fails for a window whose integrator has just been started: its
  speed is 0 before the step and 0 after it, so the step does not strictly decrease it.
\<close>

theorem integrator_dissipates_counterexample:
  "0 < friction resting_str \<and> friction resting_str < 1 \<and>
   0 < bounce resting_str \<and> bounce resting_str < 1 \<and>
   isDetached resting_str \<and> \<not> isDragging resting_str \<and> ticking 1 resting_str \<and>
   speed resting_str = 0 \<and> speed (updatePhysics_str resting_str) = 0 \<and>
   \<not> speed (updatePhysics_str resting_str) < speed resting_str"
proof -
  have v: "velocity_x (updatePhysics_str resting_str) = 0"
    "velocity_y (updatePhysics_str resting_str) = 0"
    using updatePhysics_str_velocity [of resting_str] resting_str_facts by simp_all
  show ?thesis using v resting_str_facts by (simp add: speed_def)
qed

theorem integrator_dissipates_witness:
  "0 < friction drifting_str \<and> friction drifting_str < 1 \<and>
   0 < bounce drifting_str \<and> bounce drifting_str < 1 \<and>
   ticking 1 drifting_str \<and> isDetached drifting_str \<and> \<not> isDragging drifting_str \<and>
   0 < speed drifting_str \<and>
   speed (updatePhysics_str drifting_str) < speed drifting_str \<and>
   speed (updatePhysics_adv drifting_str) < speed drifting_str \<and>
   \<not> (\<bar>velocity_x (damped drifting_str)\<bar> < 0.1 \<and> \<bar>velocity_y (damped drifting_str)\<bar> < 0.1) \<and>
   \<not> at_rest (updatePhysics_str drifting_str) \<and>
   \<not> at_rest (updatePhysics_adv drifting_str) \<and>
   ticking 1 (updatePhysics_str drifting_str) \<and>
   ticking 1 (updatePhysics_adv drifting_str) \<and>
   velocity_x (updatePhysics_str drifting_str) = velocity_x (damped drifting_str) \<and>
   velocity_x (updatePhysics_adv drifting_str) = velocity_x (damped drifting_str) \<and>
   physicsLoop_str 3 drifting_str = None \<and>
   (\<exists>s'. physicsLoop_str 4 drifting_str = Some s' \<and> at_rest s') \<and>
   (\<exists>k s'. physicsLoop_adv k drifting_str = Some s' \<and> at_rest s') \<and>
   0 < friction resting_str \<and> friction resting_str < 1 \<and>
   0 < bounce resting_str \<and> bounce resting_str < 1 \<and>
   speed resting_str = 0 \<and>
   speed (updatePhysics_str resting_str) = 0 \<and> speed (updatePhysics_adv resting_str) = 0"
proof -
  have p: "0 < friction drifting_str" "friction drifting_str < 1"
    "0 < bounce drifting_str" "bounce drifting_str < 1"
    by (simp_all add: drifting_str_facts)
  have q: "0 < friction resting_str" "friction resting_str < 1"
    "0 < bounce resting_str" "bounce resting_str < 1"
    by (simp_all add: resting_str_facts)
  have sp: "0 < speed drifting_str"
    by (simp add: speed_def drifting_str_facts)
  have z: "speed resting_str = 0"
    by (simp add: speed_def resting_str_facts)
  have h: "ticking 1 drifting_str \<and> isDetached drifting_str \<and> \<not> isDragging drifting_str"
    using drifting_str_facts(3,6,7) by (intro conjI)
  note d = integrator_dissipates [OF p, of 1]
  note r = integrator_dissipates [OF q, of 1]
  note d1 = mp [OF d [THEN conjunct1] sp]
  note r2 = mp [OF r [THEN conjunct2, THEN conjunct1] z]
  note d3 = mp [OF d [THEN conjunct2, THEN conjunct2, THEN conjunct1] h]
  note d4 = mp [OF d [THEN conjunct2, THEN conjunct2, THEN conjunct2] drifting_str_facts(3)]
  have n: "\<not> at_rest (updatePhysics_str drifting_str)"
    using drifting_str_glides(1) by (rule ticking_not_at_rest)
  have c: "\<not> (\<bar>velocity_x (damped drifting_str)\<bar> < 0.1 \<and>
               \<bar>velocity_y (damped drifting_str)\<bar> < 0.1)"
    using d3 [THEN conjunct1] n by simp
  have m: "\<not> at_rest (updatePhysics_adv drifting_str)"
    using d3 [THEN conjunct2, THEN conjunct1] c by simp
  note s1 = mp [OF d3 [THEN conjunct2, THEN conjunct2, THEN conjunct1] n]
  note a1 = mp [OF d3 [THEN conjunct2, THEN conjunct2, THEN conjunct2] m]
  have l: "\<exists>s'. physicsLoop_str 4 drifting_str = Some s' \<and> at_rest s'"
    using drifting_str_run(2) drifting_str_glides(4) by simp
  show ?thesis
    using p q h sp d1 c n m s1 a1 drifting_str_run(1) l d4 [THEN conjunct2] z r2
    by (simp del: One_nat_def)
qed

lemma collide_x:
  "fst (collide x y s) =
     (if x \<le> 0 then 0 else if x \<ge> innerWidth s - offsetWidth s
      then innerWidth s - offsetWidth s else x) \<and>
   velocity_x (snd (snd (collide x y s))) =
     (if x \<le> 0 \<or> x \<ge> innerWidth s - offsetWidth s
      then - velocity_x s * bounce s else velocity_x s) * friction s \<and>
   innerWidth (snd (snd (collide x y s))) = innerWidth s \<and>
   offsetWidth (snd (snd (collide x y s))) = offsetWidth s"
  by (simp add: collide_def Let_def split_def)

text \<open>
  Claim C6, as the code has it. A step of a window that fits the viewport, stands
  exactly at the right boundary and moves right with \<open>vx = 5\<close>, \<open>bounce = 0.3\<close>
  and \<open>friction = 0.95\<close> (the constructor's value in adv and str) leaves the
  window at the boundary: the bounce gives -1.5 and the friction of the same step
  scales it by 0.95, so \<open>vx\<close> ends at -1.425, to within \<open>1 / 10 ^ 12\<close>
  (the code's doubles give -1.4249999999999998).
\<close>

theorem bounce_at_right_boundary:
  assumes "isDetached s" and "\<not> isDragging s"
    and "rect_left s = innerWidth s - offsetWidth s"
    and "0 \<le> innerWidth s - offsetWidth s"
    and "velocity_x s = 5" and "bounce s = 0.3" and "friction s = 0.95"
  shows "\<bar>velocity_x (updatePhysics_str s) - (- 1.425)\<bar> < 1 / 10 ^ 12 \<and>
         style_left (updatePhysics_str s) = innerWidth s - offsetWidth s \<and>
         \<bar>velocity_x (updatePhysics_adv s) - (- 1.425)\<bar> < 1 / 10 ^ 12 \<and>
         style_left (updatePhysics_adv s) = innerWidth s - offsetWidth s"
proof -
  let ?c = "collide (rect_left s + velocity_x s) (rect_top s + velocity_y s) s"
  have x: "fst ?c = innerWidth s - offsetWidth s"
    "velocity_x (snd (snd ?c)) = - 1.425"
    "innerWidth (snd (snd ?c)) = innerWidth s" "offsetWidth (snd (snd ?c)) = offsetWidth s"
    using assms(4) collide_x [of "rect_left s + velocity_x s" "rect_top s + velocity_y s" s]
    by (simp_all add: assms(3,5-7))
  have str: "updatePhysics_str s = moveWindowFreely (fst ?c) (fst (snd ?c)) (snd (snd ?c))"
    by (simp add: updatePhysics_str_def Let_def split_def assms(1,2) x(2))
  have adv: "updatePhysics_adv s =
               (snd (snd ?c))\<lparr>style_left := fst ?c, style_top := Some (fst (snd ?c))\<rparr>"
    by (simp add: updatePhysics_adv_def Let_def split_def assms(1,2) x(2))
  show ?thesis
    unfolding str adv using assms(4) by (simp add: moveWindowFreely_def Let_def x)
qed

theorem bounce_at_right_boundary_witness:
  "isDetached at_right_edge_str \<and> \<not> isDragging at_right_edge_str \<and>
   rect_left at_right_edge_str = innerWidth at_right_edge_str - offsetWidth at_right_edge_str \<and>
   0 \<le> innerWidth at_right_edge_str - offsetWidth at_right_edge_str \<and>
   velocity_x at_right_edge_str = 5 \<and> bounce at_right_edge_str = 0.3 \<and>
   friction at_right_edge_str = 0.95 \<and>
   \<bar>velocity_x (updatePhysics_str at_right_edge_str) - (- 1.425)\<bar> < 1 / 10 ^ 12 \<and>
   style_left (updatePhysics_str at_right_edge_str) = 960 \<and>
   \<bar>velocity_x (updatePhysics_adv at_right_edge_str) - (- 1.425)\<bar> < 1 / 10 ^ 12 \<and>
   style_left (updatePhysics_adv at_right_edge_str) = 960"
  using bounce_at_right_boundary [of at_right_edge_str] at_right_edge_str_facts
  by simp

text \<open>The claim as stated fails: after the step \<open>vx\<close> is not -1.5.\<close>

theorem bounce_at_right_boundary_counterexample:
  "isDetached at_right_edge_str \<and> \<not> isDragging at_right_edge_str \<and>
   rect_left at_right_edge_str = innerWidth at_right_edge_str - offsetWidth at_right_edge_str \<and>
   velocity_x at_right_edge_str = 5 \<and> bounce at_right_edge_str = 0.3 \<and>
   velocity_x (updatePhysics_str at_right_edge_str) \<noteq> - 1.5"
  by (simp add: at_right_edge_str_facts updatePhysics_str_def collide_def Let_def
      moveWindowFreely_def split_def)

section \<open>Reattachment checks\<close>

lemma reattachWindow_attached:
  "\<not> isDetached (reattachWindow_str s) \<and> \<not> isDetached (reattachWindow_grav s) \<and>
   \<not> isDetached (reattachWindow_clean s) \<and> \<not> isDetached (reattachWindow_adv s)"
  by (simp add: reattachWindow_str_def reattachWindow_grav_def reattachWindow_clean_def
      reattachWindow_adv_def Let_def setTimeout_def showNotification_def dispatchEvent_def
      resetStretchEffect_def resetStretchEffect_str_def snapToTaskbar_adv_def)

lemma speed_zero: "speed s = 0 \<longleftrightarrow> velocity_x s = 0 \<and> velocity_y s = 0"
  by (simp add: speed_def)

lemma auto_reattach_in_zone:
  "speed s = 0 \<Longrightarrow>
   (rect_bottom s \<ge> innerHeight s - 100 \<longrightarrow> \<not> isDetached (checkForAutoReattach_grav s)) \<and>
   (rect_bottom s \<ge> innerHeight s - 80 \<longrightarrow> \<not> isDetached (checkForAutoReattach_clean s))"
  using reattachWindow_attached [of s]
  by (simp add: checkForAutoReattach_grav_def checkForAutoReattach_clean_def Let_def)

lemma slam_reattach_clean_in_zone:
  "rect_bottom s \<ge> innerHeight s - 100 \<Longrightarrow> \<not> isDetached (checkForSlamReattach_clean s)"
  using reattachWindow_attached [of s]
  by (simp add: checkForSlamReattach_clean_def Let_def)

lemma checks_out_of_zone:
  "(rect_bottom s < innerHeight s - 100 \<longrightarrow> checkForAutoReattach_grav s = s) \<and>
   (rect_bottom s < innerHeight s - 80 \<longrightarrow> checkForAutoReattach_clean s = s) \<and>
   (rect_bottom s < innerHeight s - 100 \<longrightarrow> checkForSlamReattach_clean s = s) \<and>
   (rect_bottom s < innerHeight s - 120 \<longrightarrow> checkForSlamReattach_grav s = s) \<and>
   (\<bar>rect_bottom s - innerHeight s\<bar> \<ge> 80 \<longrightarrow> checkForSlamReattach_str s = s)"
  by (simp add: checkForAutoReattach_grav_def checkForAutoReattach_clean_def
      checkForSlamReattach_clean_def checkForSlamReattach_grav_def
      checkForSlamReattach_str_def Let_def)

lemma slam_checks_at_speed_zero:
  "speed s = 0 \<Longrightarrow> checkForSlamReattach_str s = s \<and> checkForSlamReattach_grav s = s"
proof -
  assume z: "speed s = 0"
  then have "velocity_y s = 0" by (simp add: speed_zero)
  then show ?thesis
    using z by (simp add: checkForSlamReattach_str_def checkForSlamReattach_grav_def Let_def)
qed

text \<open>
  Claim C4, as the code has it. The continuous check \<open>checkForAutoReattach\<close>
  (grav, clean) reattaches a window whose bottom edge is inside its dock zone when the
  speed is 0, and so does the release check of clean, at any speed. Every check leaves
  the state as it is when the bottom edge is outside its dock zone, whatever the speed.
  The release checks of str and grav are slam checks: at speed 0 they leave the state
  as it is, inside the dock zone too.
\<close>

theorem reattach_checks:
  "(rect_bottom s \<ge> innerHeight s - 100 \<and> speed s = 0
      \<longrightarrow> \<not> isDetached (checkForAutoReattach_grav s)) \<and>
   (rect_bottom s \<ge> innerHeight s - 80 \<and> speed s = 0
      \<longrightarrow> \<not> isDetached (checkForAutoReattach_clean s)) \<and>
   (rect_bottom s \<ge> innerHeight s - 100
      \<longrightarrow> \<not> isDetached (checkForSlamReattach_clean s)) \<and>
   (rect_bottom s < innerHeight s - 100 \<longrightarrow> checkForAutoReattach_grav s = s) \<and>
   (rect_bottom s < innerHeight s - 80 \<longrightarrow> checkForAutoReattach_clean s = s) \<and>
   (rect_bottom s < innerHeight s - 100 \<longrightarrow> checkForSlamReattach_clean s = s) \<and>
   (rect_bottom s < innerHeight s - 120 \<longrightarrow> checkForSlamReattach_grav s = s) \<and>
   (\<bar>rect_bottom s - innerHeight s\<bar> \<ge> 80 \<longrightarrow> checkForSlamReattach_str s = s) \<and>
   (speed s = 0 \<longrightarrow> checkForSlamReattach_str s = s \<and> checkForSlamReattach_grav s = s)"
  using auto_reattach_in_zone [of s] slam_reattach_clean_in_zone [of s]
    checks_out_of_zone [of s] slam_checks_at_speed_zero [of s]
  by blast

lemma resting_str_rect:
  "rect_bottom resting_str = 668" "innerHeight resting_str = 720" "speed resting_str = 0"
  by (simp_all add: resting_str_def rect_bottom_def speed_def run_defs)

lemma at_right_edge_str_rect:
  "rect_bottom at_right_edge_str = 340" "innerHeight at_right_edge_str = 720"
  by (simp_all add: at_right_edge_str_def rect_bottom_def run_defs)

theorem reattach_checks_witness:
  "rect_bottom resting_str \<ge> innerHeight resting_str - 80 \<and> speed resting_str = 0 \<and>
   isDetached resting_str \<and>
   \<not> isDetached (checkForAutoReattach_grav resting_str) \<and>
   \<not> isDetached (checkForAutoReattach_clean resting_str) \<and>
   \<not> isDetached (checkForSlamReattach_clean resting_str) \<and>
   rect_bottom at_right_edge_str < innerHeight at_right_edge_str - 120 \<and>
   \<bar>rect_bottom at_right_edge_str - innerHeight at_right_edge_str\<bar> \<ge> 80 \<and>
   checkForAutoReattach_grav at_right_edge_str = at_right_edge_str \<and>
   checkForAutoReattach_clean at_right_edge_str = at_right_edge_str \<and>
   checkForSlamReattach_clean at_right_edge_str = at_right_edge_str \<and>
   checkForSlamReattach_grav at_right_edge_str = at_right_edge_str \<and>
   checkForSlamReattach_str at_right_edge_str = at_right_edge_str"
  using reattach_checks [of resting_str] reattach_checks [of at_right_edge_str]
    resting_str_rect resting_str_facts(6) at_right_edge_str_rect
  by simp

text \<open>
  The claim as stated fails for the release check of str and of grav: a detached
  window at speed 0 with its bottom edge 52 pixels above the bottom of the viewport
  stays detached.
\<close>

theorem reattach_checks_counterexample:
  "isDetached resting_str \<and> speed resting_str = 0 \<and>
   \<bar>rect_bottom resting_str - innerHeight resting_str\<bar> < 80 \<and>
   rect_bottom resting_str \<ge> innerHeight resting_str - 120 \<and>
   isDetached (checkForSlamReattach_str resting_str) \<and>
   isDetached (checkForSlamReattach_grav resting_str)"
  using resting_str_rect resting_str_facts(6)
  by (simp add: checkForSlamReattach_str_def checkForSlamReattach_grav_def Let_def
      resting_str_facts(5))


section \<open>Releasing a detached window\<close>










text \<open>
  Revision clean does hand the velocity over: its \<open>startPhysics\<close> does not stop
  first, and away from the dock zone the release check changes nothing.
\<close>

lemma endDrag_clean_velocity:
  "isDragging s \<Longrightarrow> isDetached s \<Longrightarrow> rect_bottom s < innerHeight s - 100 \<Longrightarrow>
   velocity_x (endDrag_clean s) = velocity_x s \<and> velocity_y (endDrag_clean s) = velocity_y s"
  by (simp add: endDrag_clean_def checkForSlamReattach_clean_def startPhysics_clean_def
      setInterval_def Let_def rect_bottom_def rect_top_def split: option.splits)

section \<open>The shake gesture\<close>

lemma shake_loop_fold:
  "shake_loop threshold ps a = shake_fold threshold (segment_deltas ps) a"
  by (induction threshold ps a rule: shake_loop.induct)
     (simp_all add: shake_fold_def segment_deltas_def)

lemma shake_fold_Cons:
  "shake_fold threshold (d # ds) a = shake_fold threshold ds (shake_body threshold d a)"
  by (simp add: shake_fold_def)

lemma shake_fold_counts:
  "verticalMovements (shake_fold t ds a) =
     verticalMovements a + length (filter (\<lambda>d. \<bar>d\<bar> > t) ds) \<and>
   upwardMovement (shake_fold t ds a) =
     upwardMovement a + length (filter (\<lambda>d. d < 0) (filter (\<lambda>d. \<bar>d\<bar> > t) ds)) \<and>
   totalVerticalDistance (shake_fold t ds a) =
     totalVerticalDistance a + sum_list (map abs (filter (\<lambda>d. \<bar>d\<bar> > t) ds))"
proof (induction ds arbitrary: a)
  case Nil
  then show ?case by (simp add: shake_fold_def)
next
  case (Cons d ds)
  show ?case
    unfolding shake_fold_Cons
    by (simp add: Cons.IH shake_body_def Let_def)
qed

lemma shake_fold_intensity:
  "maxUpwardDelta (shake_fold t ds a) > 35 \<longleftrightarrow>
     maxUpwardDelta a > 35 \<or> list_ex (\<lambda>d. d < 0 \<and> \<bar>d\<bar> > 35) (filter (\<lambda>d. \<bar>d\<bar> > t) ds)"
proof (induction ds arbitrary: a)
  case Nil
  then show ?case by (simp add: shake_fold_def)
next
  case (Cons d ds)
  show ?case
    unfolding shake_fold_Cons
    by (auto simp add: Cons.IH shake_body_def Let_def)
qed

lemma two_consecutive_upward_Cons:
  "two_consecutive_upward (d # ds) \<longleftrightarrow> (d < 0 \<and> starts_upward ds) \<or> two_consecutive_upward ds"
  by (cases ds) (simp_all add: starts_upward_def)

lemma shake_fold_consistency:
  "maxConsecutiveUpward (shake_fold t ds a) \<ge> 2 \<longleftrightarrow>
     maxConsecutiveUpward a \<ge> 2 \<or>
     (consecutiveUpward a \<ge> 1 \<and> starts_upward (filter (\<lambda>d. \<bar>d\<bar> > t) ds)) \<or>
     two_consecutive_upward (filter (\<lambda>d. \<bar>d\<bar> > t) ds)"
proof (induction ds arbitrary: a)
  case Nil
  then show ?case by (simp add: shake_fold_def starts_upward_def)
next
  case (Cons d ds)
  show ?case
  proof (cases "\<bar>d\<bar> > t")
    case False
    then show ?thesis
      unfolding shake_fold_Cons by (simp add: Cons.IH shake_body_def Let_def)
  next
    case True
    show ?thesis
    proof (cases "d < 0")
      case up: True
      have b: "maxConsecutiveUpward (shake_body t d a)
                 = max (maxConsecutiveUpward a) (consecutiveUpward a + 1)"
        "consecutiveUpward (shake_body t d a) = consecutiveUpward a + 1"
        using True up by (simp_all add: shake_body_def Let_def)
      show ?thesis
        unfolding shake_fold_Cons
        using True up
        by (simp add: Cons.IH b two_consecutive_upward_Cons starts_upward_def) linarith
    next
      case down: False
      have b: "maxConsecutiveUpward (shake_body t d a) = maxConsecutiveUpward a"
        "consecutiveUpward (shake_body t d a) = 0"
        using True down by (simp_all add: shake_body_def Let_def)
      show ?thesis
        unfolding shake_fold_Cons
        using True down
        by (simp add: Cons.IH b two_consecutive_upward_Cons starts_upward_def)
    qed
  qed
qed

lemma shake_loop_five_conditions:
  "(let a = shake_loop t ps no_movement
    in verticalMovements a \<ge> 5 \<and> upwardMovement a \<ge> 3 \<and> totalVerticalDistance a > 100 \<and>
       maxUpwardDelta a > 35 \<and> maxConsecutiveUpward a \<ge> 2)
   \<longleftrightarrow> five_conditions t ps"
  by (simp add: Let_def shake_loop_fold shake_fold_counts shake_fold_intensity
      shake_fold_consistency five_conditions_def shake_deltas_def no_movement_def)

lemma shake_loop_basic_counts:
  "shake_loop_basic t ps (vm, um) =
     (vm + length (shake_deltas t ps),
      um + length (filter (\<lambda>d. d < 0) (shake_deltas t ps)))"
  by (induction t ps "(vm, um)" arbitrary: vm um rule: shake_loop_basic.induct)
     (simp_all add: shake_deltas_def segment_deltas_def Let_def)

lemma detectShake_adv_detached:
  "isDetached (detectShake_adv s) \<longleftrightarrow>
     isDetached s \<or>
     (length (lastPositions s) \<ge> 8 \<and> five_conditions (shakeThreshold s) (lastPositions s))"
proof -
  have d: "isDetached (detachWindow_adv s)"
    by (simp add: detachWindow_adv_def Let_def setTimeout_def dispatchEvent_def
        showNotification_def)
  show ?thesis
    using shake_loop_five_conditions [of "shakeThreshold s" "lastPositions s"] d
    by (auto simp add: detectShake_adv_def Let_def)
qed

lemma detectShake_basic_detached:
  "isDetached (detectShake_basic s) \<longleftrightarrow>
     isDetached s \<or>
     (length (lastPositions s) \<ge> 5 \<and>
      length (shake_deltas (shakeThreshold s) (lastPositions s)) \<ge> 3 \<and>
      length (filter (\<lambda>d. d < 0) (shake_deltas (shakeThreshold s) (lastPositions s))) \<ge> 2)"
proof -
  have d: "isDetached (detachWindow_basic s)"
    by (simp add: detachWindow_basic_def Let_def setTimeout_def dispatchEvent_def
        showNotification_def)
  show ?thesis
    using d by (auto simp add: detectShake_basic_def shake_loop_basic_counts)
qed

lemma recordPosition_frame:
  "isDetached (recordPosition x y now s) = isDetached s \<and>
   isDragging (recordPosition x y now s) = isDragging s \<and>
   shakeThreshold (recordPosition x y now s) = shakeThreshold s"
  by (simp add: recordPosition_def Let_def)

lemma recordPosition_length:
  "length (lastPositions s) \<le> 10 \<Longrightarrow> length (lastPositions (recordPosition x y now s)) \<le> 10"
  by (simp add: recordPosition_def Let_def)

text \<open>
  Claim C7, as the code has it. A move event on an attached window that is being
  dragged detaches it, in revision adv, exactly when the buffer (with the sample of
  this event, at most ten samples) holds at least 8 samples and all five conditions
  hold over it; in revision basic, exactly when the buffer holds at least 5 samples,
  at least 3 deltas exceed the threshold and at least 2 of those are upward.
\<close>

theorem shake_detaches_iff:
  assumes "isDragging s" and "\<not> isDetached s"
  shows "(isDetached (drag_adv now e s) \<longleftrightarrow>
            length (lastPositions (recordPosition (clientX e) (clientY e) now s)) \<ge> 8 \<and>
            five_conditions (shakeThreshold s)
              (lastPositions (recordPosition (clientX e) (clientY e) now s))) \<and>
         (isDetached (drag_basic now e s) \<longleftrightarrow>
            length (lastPositions (recordPosition (clientX e) (clientY e) now s)) \<ge> 5 \<and>
            length (shake_deltas (shakeThreshold s)
              (lastPositions (recordPosition (clientX e) (clientY e) now s))) \<ge> 3 \<and>
            length (filter (\<lambda>d. d < 0) (shake_deltas (shakeThreshold s)
              (lastPositions (recordPosition (clientX e) (clientY e) now s)))) \<ge> 2) \<and>
         (length (lastPositions s) \<le> 10 \<longrightarrow>
            length (lastPositions (recordPosition (clientX e) (clientY e) now s)) \<le> 10)"
proof -
  let ?r = "recordPosition (clientX e) (clientY e) now s"
  have r: "isDragging ?r" "\<not> isDetached ?r" "shakeThreshold ?r = shakeThreshold s"
    using assms recordPosition_frame [of "clientX e" "clientY e" now s] by simp_all
  have a: "drag_adv now e s =
             detectShake_adv (moveOnTaskbarRail_adv
               (rect_left ?r + (clientX e - lastMouseX ?r))
               (rect_top ?r + (clientY e - lastMouseY ?r))
               (?r\<lparr>lastMouseX := clientX e, lastMouseY := clientY e\<rparr>))"
    using assms r
    by (simp add: drag_adv_def Let_def rect_left_def rect_top_def split: option.splits)
  have b: "drag_basic now e s =
             detectShake_basic (moveOnTaskbarRail_basic
               (clientX e - dragOffset_x ?r) (clientY e - dragOffset_y ?r) ?r)"
    using assms r by (simp add: drag_basic_def Let_def)
  show ?thesis
    unfolding a b detectShake_adv_detached detectShake_basic_detached
    using r recordPosition_length [of s "clientX e" "clientY e" now]
    by (simp add: moveOnTaskbarRail_adv_def moveOnTaskbarRail_basic_def Let_def)
qed

lemma drag_adv_quiet:
  assumes "isDragging s" "\<not> isDetached s" "length (lastPositions s) < 7"
  shows "isDragging (drag_adv now e s) \<and> \<not> isDetached (drag_adv now e s) \<and>
         shakeThreshold (drag_adv now e s) = shakeThreshold s \<and>
         lastPositions (drag_adv now e s) =
           lastPositions s @ [\<lparr>pos_x = clientX e, pos_y = clientY e, pos_time = now\<rparr>]"
  using assms
  by (simp add: drag_adv_def detectShake_adv_def moveOnTaskbarRail_adv_def
      recordPosition_def Let_def)

lemma shaking_adv_0:
  "isDragging (shaking_adv 0)" "\<not> isDetached (shaking_adv 0)"
  "shakeThreshold (shaking_adv 0) = 25"
  "lastPositions (shaking_adv 0) = [\<lparr>pos_x = 200, pos_y = 500, pos_time = 0\<rparr>]"
  by (simp_all add: shaking_adv_def startDrag_adv_def recordPosition_def
      WindowPhysics_adv_def Let_def)

lemma shaking_adv_Suc:
  "k < 7 \<Longrightarrow>
   shaking_adv (Suc k) = drag_adv (fst (shake_moves ! k)) (snd (shake_moves ! k)) (shaking_adv k)"
proof -
  assume k: "k < 7"
  have "length shake_moves = 7" by (simp add: shake_moves_def)
  then have "take (Suc k) shake_moves = take k shake_moves @ [shake_moves ! k]"
    using k by (simp add: take_Suc_conv_app_nth)
  then show ?thesis by (simp add: shaking_adv_def split_def)
qed

lemma shaking_adv_step:
  assumes "k < 7" "isDragging (shaking_adv k)" "\<not> isDetached (shaking_adv k)"
    "length (lastPositions (shaking_adv k)) < 7"
  shows "isDragging (shaking_adv (Suc k)) \<and> \<not> isDetached (shaking_adv (Suc k)) \<and>
         shakeThreshold (shaking_adv (Suc k)) = shakeThreshold (shaking_adv k) \<and>
         lastPositions (shaking_adv (Suc k)) =
           lastPositions (shaking_adv k) @
             [\<lparr>pos_x = clientX (snd (shake_moves ! k)), pos_y = clientY (snd (shake_moves ! k)),
               pos_time = fst (shake_moves ! k)\<rparr>]"
  unfolding shaking_adv_Suc [OF assms(1)]
  using drag_adv_quiet [OF assms(2-4)] by simp

lemma shaking_adv_trace:
  "k \<le> 6 \<Longrightarrow>
   isDragging (shaking_adv k) \<and> \<not> isDetached (shaking_adv k) \<and>
   shakeThreshold (shaking_adv k) = 25 \<and>
   lastPositions (shaking_adv k) =
     \<lparr>pos_x = 200, pos_y = 500, pos_time = 0\<rparr> #
     map (\<lambda>m. \<lparr>pos_x = clientX (snd m), pos_y = clientY (snd m), pos_time = fst m\<rparr>)
       (take k shake_moves)"
proof (induction k)
  case 0
  then show ?case using shaking_adv_0 by simp
next
  case (Suc k)
  then have k: "k < 7" "k \<le> 6" by simp_all
  have len: "length shake_moves = 7" by (simp add: shake_moves_def)
  have ih: "isDragging (shaking_adv k)" "\<not> isDetached (shaking_adv k)"
    "shakeThreshold (shaking_adv k) = 25"
    "lastPositions (shaking_adv k) =
       \<lparr>pos_x = 200, pos_y = 500, pos_time = 0\<rparr> #
       map (\<lambda>m. \<lparr>pos_x = clientX (snd m), pos_y = clientY (snd m), pos_time = fst m\<rparr>)
         (take k shake_moves)"
    using Suc.IH [OF k(2)] by simp_all
  have short: "length (lastPositions (shaking_adv k)) < 7"
    using Suc.prems len by (simp add: ih(4))
  have tk: "take (Suc k) shake_moves = take k shake_moves @ [shake_moves ! k]"
    using k(1) len by (simp add: take_Suc_conv_app_nth)
  show ?case
    using shaking_adv_step [OF k(1) ih(1,2) short] ih(3,4) by (simp add: tk)
qed

lemma sixth_sample_buffer:
  "lastPositions (recordPosition 200 300 80 (shaking_adv 4)) =
     map (\<lambda>(t, y). \<lparr>pos_x = 200, pos_y = y, pos_time = t\<rparr>)
       [(0, 500), (16, 460), (32, 420), (48, 380), (64, 340), (80, 300)]"
  using shaking_adv_trace [of 4]
  by (simp add: recordPosition_def Let_def shake_moves_def)

lemma eighth_sample_buffer:
  "lastPositions (recordPosition 200 220 112 (shaking_adv 6)) =
     map (\<lambda>(t, y). \<lparr>pos_x = 200, pos_y = y, pos_time = t\<rparr>)
       [(0, 500), (16, 460), (32, 420), (48, 380), (64, 340), (80, 300), (96, 260),
        (112, 220)]"
  using shaking_adv_trace [of 6]
  by (simp add: recordPosition_def Let_def shake_moves_def)

text \<open>
  The claim as stated fails in revision adv on the fifth move of the shake: the
  buffer holds 6 samples, the five conditions hold over it, and the window stays
  attached, because \<open>detectShake\<close> returns at once with fewer than 8 samples.
\<close>

theorem shake_detaches_counterexample:
  "isDragging (shaking_adv 4) \<and> \<not> isDetached (shaking_adv 4) \<and>
   length (lastPositions (recordPosition 200 300 80 (shaking_adv 4))) = 6 \<and>
   five_conditions (shakeThreshold (shaking_adv 4))
     (lastPositions (recordPosition 200 300 80 (shaking_adv 4))) \<and>
   \<not> isDetached (drag_adv 80 \<lparr>clientX = 200, clientY = 300\<rparr> (shaking_adv 4))"
proof -
  have a: "isDragging (shaking_adv 4)" "\<not> isDetached (shaking_adv 4)"
    "shakeThreshold (shaking_adv 4) = 25" "length (lastPositions (shaking_adv 4)) < 7"
    using shaking_adv_trace [of 4] by (simp_all add: shake_moves_def)
  have b: "five_conditions 25 (lastPositions (recordPosition 200 300 80 (shaking_adv 4)))"
    unfolding sixth_sample_buffer
    by (simp add: five_conditions_def shake_deltas_def segment_deltas_def)
  have c: "\<not> isDetached (drag_adv 80 \<lparr>clientX = 200, clientY = 300\<rparr> (shaking_adv 4))"
    using drag_adv_quiet [OF a(1,2,4)] by simp
  show ?thesis using a b c by (simp add: sixth_sample_buffer)
qed

text \<open>The seventh move of the shake fills the buffer to 8 samples and detaches.\<close>

theorem shake_detaches_iff_witness:
  "isDragging (shaking_adv 6) \<and> \<not> isDetached (shaking_adv 6) \<and>
   length (lastPositions (recordPosition 200 220 112 (shaking_adv 6))) = 8 \<and>
   isDetached (drag_adv 112 \<lparr>clientX = 200, clientY = 220\<rparr> (shaking_adv 6)) \<and>
   isDetached (drag_basic 112 \<lparr>clientX = 200, clientY = 220\<rparr> (shaking_adv 6))"
proof -
  have a: "isDragging (shaking_adv 6)" "\<not> isDetached (shaking_adv 6)"
    "shakeThreshold (shaking_adv 6) = 25"
    using shaking_adv_trace [of 6] by simp_all
  have b: "five_conditions 25 (lastPositions (recordPosition 200 220 112 (shaking_adv 6)))"
    unfolding eighth_sample_buffer
    by (simp add: five_conditions_def shake_deltas_def segment_deltas_def)
  have c: "length (shake_deltas 25
              (lastPositions (recordPosition 200 220 112 (shaking_adv 6)))) = 7"
    "length (filter (\<lambda>d. d < 0) (shake_deltas 25
              (lastPositions (recordPosition 200 220 112 (shaking_adv 6))))) = 7"
    unfolding eighth_sample_buffer
    by (simp_all add: shake_deltas_def segment_deltas_def)
  show ?thesis
    using shake_detaches_iff [OF a(1,2), of 112 "\<lparr>clientX = 200, clientY = 220\<rparr>"] a b c
    by (simp add: eighth_sample_buffer)
qed

section \<open>One physics timer\<close>

lemma timer_inv_cases:
  "timer_inv s \<longleftrightarrow>
     0 < nextHandle s \<and>
     (physicsInterval s = None \<and> intervals s = {} \<or>
      (\<exists>h. physicsInterval s = Some h \<and> intervals s = {h} \<and> 0 < h \<and>
           h < nextHandle s))"
proof (cases "physicsInterval s")
  case None
  then show ?thesis by (simp add: timer_inv_def)
next
  case (Some h)
  then show ?thesis by (simp add: timer_inv_def)
qed

lemma timer_inv_split:
  assumes "timer_inv s"
  shows "physicsInterval s = None \<and> intervals s = {} \<or>
         (\<exists>h. physicsInterval s = Some h \<and> intervals s = {h} \<and> 0 < h \<and>
              h < nextHandle s)"
  using assms unfolding timer_inv_cases by (rule conjunct2)

lemma timer_inv_next: "timer_inv s \<Longrightarrow> 0 < nextHandle s"
  unfolding timer_inv_cases by (rule conjunct1)

lemma stopPhysics_None:
  "physicsInterval s = None \<Longrightarrow>
   intervals (stopPhysics s) = intervals s \<and> physicsInterval (stopPhysics s) = None \<and>
   nextHandle (stopPhysics s) = nextHandle s"
  by (simp add: stopPhysics_def Let_def)

lemma stopPhysics_Some:
  "physicsInterval s = Some h \<Longrightarrow> h \<noteq> 0 \<Longrightarrow>
   intervals (stopPhysics s) = intervals s - {h} \<and> physicsInterval (stopPhysics s) = None \<and>
   nextHandle (stopPhysics s) = nextHandle s"
  by (simp add: stopPhysics_def clearInterval_def Let_def)

lemma stopPhysics_timer:
  assumes "timer_inv s"
  shows "intervals (stopPhysics s) = {} \<and> physicsInterval (stopPhysics s) = None \<and>
         nextHandle (stopPhysics s) = nextHandle s"
  using timer_inv_split [OF assms]
proof (elim disjE exE conjE)
  assume "physicsInterval s = None" "intervals s = {}"
  then show ?thesis using stopPhysics_None [of s] by simp
next
  fix h assume "physicsInterval s = Some h" "intervals s = {h}" "0 < h"
  then show ?thesis using stopPhysics_Some [of s h] by simp
qed

lemma stopPhysics_inv: "timer_inv s \<Longrightarrow> timer_inv (stopPhysics s)"
proof -
  assume i: "timer_inv s"
  then have "0 < nextHandle s" by (rule timer_inv_next)
  then show ?thesis
    unfolding timer_inv_cases [of "stopPhysics s"] using stopPhysics_timer [OF i] by simp
qed

lemma setInterval_fields:
  "intervals (snd (setInterval s)) = insert (nextHandle s) (intervals s) \<and>
   nextHandle (snd (setInterval s)) = Suc (nextHandle s) \<and>
   physicsInterval (snd (setInterval s)) = physicsInterval s \<and>
   fst (setInterval s) = nextHandle s"
  by (simp add: setInterval_def)

lemma startPhysics_fields:
  "intervals (startPhysics s) = insert (nextHandle (stopPhysics s)) (intervals (stopPhysics s)) \<and>
   nextHandle (startPhysics s) = Suc (nextHandle (stopPhysics s)) \<and>
   physicsInterval (startPhysics s) = Some (nextHandle (stopPhysics s))"
  by (simp add: startPhysics_def Let_def split_def setInterval_fields)

lemma startPhysics_inv:
  "timer_inv s \<Longrightarrow>
   timer_inv (startPhysics s) \<and> intervals (startPhysics s) = {nextHandle s} \<and>
   physicsInterval (startPhysics s) = Some (nextHandle s)"
proof -
  assume i: "timer_inv s"
  have n: "0 < nextHandle s" using i by (rule timer_inv_next)
  have f: "intervals (startPhysics s) = {nextHandle s}"
    "nextHandle (startPhysics s) = Suc (nextHandle s)"
    "physicsInterval (startPhysics s) = Some (nextHandle s)"
    using startPhysics_fields [of s] stopPhysics_timer [OF i] by simp_all
  have "timer_inv (startPhysics s)"
    unfolding timer_inv_cases [of "startPhysics s"] using f n by simp
  then show ?thesis using f by simp
qed

lemma startPhysics_clean_fields:
  "\<not> truthy (physicsInterval s) \<Longrightarrow>
   intervals (startPhysics_clean s) = insert (nextHandle s) (intervals s) \<and>
   nextHandle (startPhysics_clean s) = Suc (nextHandle s) \<and>
   physicsInterval (startPhysics_clean s) = Some (nextHandle s)"
  by (simp add: startPhysics_clean_def Let_def split_def setInterval_fields)

lemma startPhysics_clean_inv:
  "timer_inv s \<Longrightarrow>
   timer_inv (startPhysics_clean s) \<and>
   (truthy (physicsInterval s) \<longrightarrow> startPhysics_clean s = s)"
proof -
  assume i: "timer_inv s"
  have n: "0 < nextHandle s" using i by (rule timer_inv_next)
  show ?thesis
    using timer_inv_split [OF i]
  proof (elim disjE exE conjE)
    assume none: "physicsInterval s = None" "intervals s = {}"
    then have t: "\<not> truthy (physicsInterval s)" by (simp add: truthy_def)
    have "timer_inv (startPhysics_clean s)"
      unfolding timer_inv_cases [of "startPhysics_clean s"]
      using startPhysics_clean_fields [OF t] none n by simp
    then show ?thesis using t by simp
  next
    fix h assume some: "physicsInterval s = Some h" "intervals s = {h}" "0 < h"
    then have "truthy (physicsInterval s)" by (simp add: truthy_def)
    then have "startPhysics_clean s = s" by (simp add: startPhysics_clean_def)
    then show ?thesis using i by simp
  qed
qed

lemma frame_simple [simp]:
  "timer_fields (showNotification m s) = timer_fields s"
  "timer_fields (dispatchEvent ev s) = timer_fields s"
  "timer_fields (setTimeout cb s) = timer_fields s"
  "timer_fields (resetStretchEffect s) = timer_fields s"
  "timer_fields (moveWindowFreely x y s) = timer_fields s"
  "timer_fields (moveOnTaskbarRail x s) = timer_fields s"
  "timer_fields (moveOnTaskbarRail_adv x y s) = timer_fields s"
  "timer_fields (snapToTaskbar_adv s) = timer_fields s"
  "timer_fields (recordPosition x y now s) = timer_fields s"
  "timer_fields (unqueue i s) = timer_fields s"
  "timer_fields (fire_adv cb s) = timer_fields s"
  "timer_fields (fire_clean cb s) = timer_fields s"
  "timer_fields (applyStretchEffect_clean s) = timer_fields s"
  by (simp_all add: timer_fields_def showNotification_def dispatchEvent_def setTimeout_def
      resetStretchEffect_def moveWindowFreely_def moveOnTaskbarRail_def
      moveOnTaskbarRail_adv_def snapToTaskbar_adv_def recordPosition_def unqueue_def
      fire_adv_def fire_clean_def applyStretchEffect_clean_def Let_def split: callback.splits)

lemma frame_detach [simp]:
  "timer_fields (detachWindow_adv s) = timer_fields s"
  "timer_fields (detachWindow_clean s) = timer_fields s"
  by (simp_all add: timer_fields_def detachWindow_adv_def detachWindow_clean_def
      showNotification_def dispatchEvent_def setTimeout_def resetStretchEffect_def Let_def)

lemma inv_by_fields: "timer_fields s' = timer_fields s \<Longrightarrow> timer_inv s \<Longrightarrow> timer_inv s'"
  by (simp add: timer_fields_def timer_inv_def)

lemma collide_timer_fields: "timer_fields (snd (snd (collide x y s))) = timer_fields s"
  by (simp add: collide_def Let_def split_def timer_fields_def)

lemma reattachWindow_adv_fields:
  "timer_fields (reattachWindow_adv s) =
     (if isDetached s then timer_fields (stopPhysics s) else timer_fields s)"
  by (simp add: reattachWindow_adv_def Let_def)
     (simp add: timer_fields_def showNotification_def dispatchEvent_def setTimeout_def
        snapToTaskbar_adv_def)

lemma reattachWindow_clean_fields:
  "timer_fields (reattachWindow_clean s) =
     (if isDetached s then timer_fields (stopPhysics s) else timer_fields s)"
  by (simp add: reattachWindow_clean_def Let_def)
     (simp add: timer_fields_def showNotification_def dispatchEvent_def setTimeout_def
        resetStretchEffect_def)

lemma reattachWindow_adv_inv: "timer_inv s \<Longrightarrow> timer_inv (reattachWindow_adv s)"
proof (cases "isDetached s")
  case True
  assume i: "timer_inv s"
  have "timer_fields (reattachWindow_adv s) = timer_fields (stopPhysics s)"
    using True by (simp add: reattachWindow_adv_fields)
  then show ?thesis using stopPhysics_inv [OF i] by (rule inv_by_fields)
next
  case False
  assume "timer_inv s"
  then show ?thesis using False by (simp add: reattachWindow_adv_def)
qed

lemma reattachWindow_clean_inv: "timer_inv s \<Longrightarrow> timer_inv (reattachWindow_clean s)"
proof (cases "isDetached s")
  case True
  assume i: "timer_inv s"
  have "timer_fields (reattachWindow_clean s) = timer_fields (stopPhysics s)"
    using True by (simp add: reattachWindow_clean_fields)
  then show ?thesis using stopPhysics_inv [OF i] by (rule inv_by_fields)
next
  case False
  assume "timer_inv s"
  then show ?thesis using False by (simp add: reattachWindow_clean_def)
qed

lemma checkForSlamReattach_adv_inv: "timer_inv s \<Longrightarrow> timer_inv (checkForSlamReattach_adv s)"
  by (simp add: checkForSlamReattach_adv_def Let_def reattachWindow_adv_inv)

lemma checkForSlamReattach_clean_inv: "timer_inv s \<Longrightarrow> timer_inv (checkForSlamReattach_clean s)"
  by (simp add: checkForSlamReattach_clean_def Let_def reattachWindow_clean_inv)

lemma checkForAutoReattach_clean_inv: "timer_inv s \<Longrightarrow> timer_inv (checkForAutoReattach_clean s)"
  by (simp add: checkForAutoReattach_clean_def Let_def reattachWindow_clean_inv)

lemma released_fields:
  "timer_fields (s\<lparr>isDragging := False, cursor := [], classes := c\<rparr>) = timer_fields s"
  by (simp add: timer_fields_def)

lemma endDrag_adv_inv: "timer_inv s \<Longrightarrow> timer_inv (endDrag_adv s)"
proof -
  assume i: "timer_inv s"
  let ?s1 = "s\<lparr>isDragging := False, cursor := [], classes := classes s - {''moving''}\<rparr>"
  have i1: "timer_inv ?s1" using released_fields i by (rule inv_by_fields)
  have a: "timer_inv (startPhysics (checkForSlamReattach_adv ?s1))"
    using startPhysics_inv [OF checkForSlamReattach_adv_inv [OF i1]] by (rule conjunct1)
  have b: "timer_inv (stopPhysics ?s1)" using i1 by (rule stopPhysics_inv)
  show ?thesis
    using i a b by (simp add: endDrag_adv_def Let_def)
qed

lemma snapBack_clean_fields: "timer_fields (snapBack_clean s) = timer_fields s"
  by (simp add: snapBack_clean_def Let_def) (simp add: timer_fields_def)

lemma endDrag_clean_inv: "timer_inv s \<Longrightarrow> timer_inv (endDrag_clean s)"
proof -
  assume i: "timer_inv s"
  let ?s1 = "s\<lparr>isDragging := False, cursor := [], classes := classes s - {''moving''}\<rparr>"
  have i1: "timer_inv ?s1" using released_fields i by (rule inv_by_fields)
  have a: "timer_inv (checkForSlamReattach_clean (startPhysics_clean ?s1))"
    using startPhysics_clean_inv [OF i1] checkForSlamReattach_clean_inv by simp
  have b: "timer_inv (snapBack_clean ?s1)" using snapBack_clean_fields i1 by (rule inv_by_fields)
  show ?thesis
    using i i1 a b by (simp add: endDrag_clean_def Let_def)
qed

lemma detectShake_adv_fields: "timer_fields (detectShake_adv s) = timer_fields s"
  by (simp add: detectShake_adv_def Let_def)

lemma startDrag_adv_fields: "timer_fields (startDrag_adv now e s) = timer_fields s"
  by (simp add: startDrag_adv_def Let_def)
     (simp add: timer_fields_def recordPosition_def Let_def)

lemma drag_adv_fields: "timer_fields (drag_adv now e s) = timer_fields s"
  by (simp add: drag_adv_def Let_def detectShake_adv_fields)
     (simp add: timer_fields_def recordPosition_def Let_def)

lemma startDrag_clean_fields: "timer_fields (startDrag_clean e s) = timer_fields s"
  by (simp add: startDrag_clean_def Let_def timer_fields_def)

lemma drag_clean_fields: "timer_fields (drag_clean e s) = timer_fields s"
  by (simp add: drag_clean_def Let_def)
     (simp add: timer_fields_def moveWindowFreely_def Let_def)

lemma loadWindowPosition_adv_fields:
  "timer_fields (loadWindowPosition_adv stored s) = timer_fields s"
  by (simp add: loadWindowPosition_adv_def Let_def timer_fields_def split: option.splits)

lemma dblclick_adv_inv: "timer_inv s \<Longrightarrow> timer_inv (dblclick_adv shiftKey s)"
proof -
  assume i: "timer_inv s"
  have d: "timer_inv (detachWindow_adv s)"
    using frame_detach(1) i by (rule inv_by_fields)
  show ?thesis
    using i d reattachWindow_adv_inv [OF i] by (simp add: dblclick_adv_def)
qed

lemma toggled_fields:
  "timer_fields ((showNotification m (s\<lparr>gravityEnabled := g\<rparr>))\<lparr>boxShadow := b\<rparr>) = timer_fields s"
  by (simp add: timer_fields_def showNotification_def)

lemma toggleGravity_clean_inv: "timer_inv s \<Longrightarrow> timer_inv (toggleGravity_clean s)"
proof -
  assume i: "timer_inv s"
  have a: "timer_inv ((showNotification m (s\<lparr>gravityEnabled := g\<rparr>))\<lparr>boxShadow := b\<rparr>)" for m g b
    using toggled_fields i by (rule inv_by_fields)
  have b: "timer_inv (startPhysics_clean
             ((showNotification m (s\<lparr>gravityEnabled := g\<rparr>))\<lparr>boxShadow := b\<rparr>))" for m g b
    using startPhysics_clean_inv [OF a] by (rule conjunct1)
  show ?thesis
    using i a b by (simp add: toggleGravity_clean_def Let_def)
qed

lemma updatePhysics_adv_inv: "timer_inv s \<Longrightarrow> timer_inv (updatePhysics_adv s)"
proof -
  assume i: "timer_inv s"
  let ?c = "collide (rect_left s + velocity_x s) (rect_top s + velocity_y s) s"
  let ?s1 = "snd (snd ?c)"
  have i1: "timer_inv ?s1" using collide_timer_fields i by (rule inv_by_fields)
  have a: "timer_inv (stopPhysics ?s1)" using i1 by (rule stopPhysics_inv)
  have "timer_fields (?s1\<lparr>style_left := a, style_top := b\<rparr>) = timer_fields ?s1" for a b
    by (simp add: timer_fields_def)
  then have b: "timer_inv (?s1\<lparr>style_left := a, style_top := b\<rparr>)" for a b
    using i1 by (rule inv_by_fields)
  show ?thesis
    using stopPhysics_inv [OF i] a b by (simp add: updatePhysics_adv_def Let_def split_def)
qed

lemma updatePhysics_clean_inv: "timer_inv s \<Longrightarrow> timer_inv (updatePhysics_clean s)"
proof -
  assume i: "timer_inv s"
  let ?s0 = "if gravityEnabled s then s\<lparr>velocity_y := velocity_y s + 0.3\<rparr> else s"
  let ?c = "collide (rect_left ?s0 + velocity_x ?s0) (rect_top ?s0 + velocity_y ?s0) ?s0"
  let ?s1 = "snd (snd ?c)"
  have "timer_fields ?s0 = timer_fields s" by (simp add: timer_fields_def)
  then have i0: "timer_inv ?s0" using i by (rule inv_by_fields)
  have i1: "timer_inv ?s1" using collide_timer_fields i0 by (rule inv_by_fields)
  have a: "timer_inv (stopPhysics ?s1)" using i1 by (rule stopPhysics_inv)
  have "timer_inv (moveWindowFreely x y ?s1)" for x y
    using frame_simple(5) i1 by (rule inv_by_fields)
  then have b: "timer_inv (checkForAutoReattach_clean (moveWindowFreely x y ?s1))" for x y
    by (rule checkForAutoReattach_clean_inv)
  show ?thesis
    unfolding updatePhysics_clean_def Let_def split_def
    using stopPhysics_inv [OF i] a b by (simp only: if_split) simp
qed

lemma constructed_inv:
  "intervals el = {} \<Longrightarrow> 0 < nextHandle el \<Longrightarrow>
   timer_inv (WindowPhysics_adv el) \<and> timer_inv (WindowPhysics_clean el)"
  by (simp add: timer_inv_def WindowPhysics_adv_def WindowPhysics_clean_def)

lemma fired_fields:
  "timer_fields (fire_adv cb (unqueue i s)) = timer_fields s"
  "timer_fields (fire_clean cb (unqueue i s)) = timer_fields s"
  by simp_all

lemma reach_adv_inv: "reach_adv s \<Longrightarrow> timer_inv s"
proof (induction rule: reach_adv.induct)
  case (constructed el)
  then show ?case using constructed_inv by simp
next
  case (loaded s stored)
  show ?case using loadWindowPosition_adv_fields loaded.IH by (rule inv_by_fields)
next
  case (mousedown s now e)
  show ?case using startDrag_adv_fields mousedown.IH by (rule inv_by_fields)
next
  case (mousemove s now e)
  show ?case using drag_adv_fields mousemove.IH by (rule inv_by_fields)
next
  case (mouseup s)
  then show ?case by (simp add: endDrag_adv_inv)
next
  case (dblclick s shiftKey)
  then show ?case by (simp add: dblclick_adv_inv)
next
  case (tick s h)
  then show ?case by (simp add: updatePhysics_adv_inv)
next
  case (timeout s i)
  show ?case using fired_fields(1) timeout.IH by (rule inv_by_fields)
qed

lemma reach_clean_inv: "reach_clean s \<Longrightarrow> timer_inv s"
proof (induction rule: reach_clean.induct)
  case (constructed el)
  then show ?case using constructed_inv by simp
next
  case (mousedown s e)
  show ?case using startDrag_clean_fields mousedown.IH by (rule inv_by_fields)
next
  case (mousemove s e)
  show ?case using drag_clean_fields mousemove.IH by (rule inv_by_fields)
next
  case (mouseup s)
  then show ?case by (simp add: endDrag_clean_inv)
next
  case (dblclick s)
  then show ?case by (simp add: toggleGravity_clean_inv)
next
  case (tick s h)
  then show ?case by (simp add: updatePhysics_clean_inv)
next
  case (timeout s i)
  show ?case using fired_fields(2) timeout.IH by (rule inv_by_fields)
qed

lemma timer_inv_single:
  assumes "timer_inv s"
  shows "intervals s = set_option (physicsInterval s) \<and> card (intervals s) \<le> 1 \<and>
         nextHandle s \<notin> intervals s"
  using timer_inv_split [OF assms]
proof (elim disjE exE conjE)
  assume "physicsInterval s = None" "intervals s = {}"
  then show ?thesis by simp
next
  fix h assume "physicsInterval s = Some h" "intervals s = {h}" "h < nextHandle s"
  then show ?thesis by simp
qed

lemma startPhysics_clean_guard:
  assumes "timer_inv s"
  shows "(physicsInterval s \<noteq> None \<longrightarrow> startPhysics_clean s = s) \<and>
         (physicsInterval s = None \<longrightarrow> intervals (startPhysics_clean s) = {nextHandle s})"
  using timer_inv_split [OF assms]
proof (elim disjE exE conjE)
  assume n: "physicsInterval s = None" "intervals s = {}"
  then have "\<not> truthy (physicsInterval s)" by (simp add: truthy_def)
  then show ?thesis using startPhysics_clean_fields [of s] n by simp
next
  fix h assume h: "physicsInterval s = Some h" "0 < h"
  then have "truthy (physicsInterval s)" by (simp add: truthy_def)
  then show ?thesis using startPhysics_clean_inv [OF assms] h by simp
qed

text \<open>
  Claim C9. In every state a window of revision adv or clean can reach, the timers
  that are set are exactly the one whose handle \<open>physicsInterval\<close> holds, so at
  most one timer ticks and a tick applies the velocity once a frame. Starting the
  integrator of adv clears the timer that is set before it sets a new one, which is
  then the only one; starting the integrator of clean while a timer is set changes
  nothing.
\<close>

theorem one_physics_timer:
  "(reach_adv s \<or> reach_clean s \<longrightarrow>
      intervals s = set_option (physicsInterval s) \<and> card (intervals s) \<le> 1 \<and>
      nextHandle s \<notin> intervals s) \<and>
   (reach_adv s \<longrightarrow>
      intervals (stopPhysics s) = {} \<and> intervals (startPhysics s) = {nextHandle s} \<and>
      physicsInterval (startPhysics s) = Some (nextHandle s)) \<and>
   (reach_clean s \<longrightarrow>
      (physicsInterval s \<noteq> None \<longrightarrow> startPhysics_clean s = s) \<and>
      (physicsInterval s = None \<longrightarrow> intervals (startPhysics_clean s) = {nextHandle s}))"
proof (intro conjI impI)
  assume "reach_adv s \<or> reach_clean s"
  then have i: "timer_inv s" using reach_adv_inv reach_clean_inv by (rule disjE)
  note t = timer_inv_single [OF i]
  show "intervals s = set_option (physicsInterval s)" by (rule t [THEN conjunct1])
  show "card (intervals s) \<le> 1" by (rule t [THEN conjunct2, THEN conjunct1])
  show "nextHandle s \<notin> intervals s" by (rule t [THEN conjunct2, THEN conjunct2])
next
  assume "reach_adv s"
  then have i: "timer_inv s" by (rule reach_adv_inv)
  show "intervals (stopPhysics s) = {}" using stopPhysics_timer [OF i] by simp
  show "intervals (startPhysics s) = {nextHandle s}" using startPhysics_inv [OF i] by simp
  show "physicsInterval (startPhysics s) = Some (nextHandle s)"
    using startPhysics_inv [OF i] by simp
next
  assume "reach_clean s"
  then have i: "timer_inv s" by (rule reach_clean_inv)
  show "startPhysics_clean s = s" if "physicsInterval s \<noteq> None"
    using startPhysics_clean_guard [OF i] that by simp
  show "intervals (startPhysics_clean s) = {nextHandle s}" if "physicsInterval s = None"
    using startPhysics_clean_guard [OF i] that by simp
qed

lemma released_adv_reach: "reach_adv released_adv"
  unfolding released_adv_def
  by (intro reach_adv.mouseup reach_adv.mousedown reach_adv.dblclick reach_adv.constructed)
     (simp_all add: chat_window_def)

lemma falling_clean_reach: "reach_clean falling_clean"
  unfolding falling_clean_def
  by (intro reach_clean.dblclick reach_clean.mousemove reach_clean.mousedown
      reach_clean.constructed)
     (simp_all add: chat_window_def)

lemma released_adv_timer:
  "physicsInterval released_adv = Some 1" "intervals released_adv = {1}"
  "nextHandle released_adv = 2"
  by (simp_all add: released_adv_def endDrag_adv_def startDrag_adv_def dblclick_adv_def
      detachWindow_adv_def WindowPhysics_adv_def chat_window_def recordPosition_def
      checkForSlamReattach_adv_def calculateVelocity_def reattachWindow_adv_def
      startPhysics_def stopPhysics_def setInterval_def clearInterval_def
      setTimeout_def dispatchEvent_def showNotification_def rect_left_def rect_top_def
      rect_bottom_def Let_def)

lemma falling_clean_timer:
  "physicsInterval falling_clean = Some 1" "intervals falling_clean = {1}"
  by (simp_all add: falling_clean_def toggleGravity_clean_def drag_clean_def
      startDrag_clean_def WindowPhysics_clean_def chat_window_def detachWindow_clean_def
      applyStretchEffect_clean_def resetStretchEffect_def startPhysics_clean_def
      setInterval_def truthy_def setTimeout_def showNotification_def rect_left_def
      rect_top_def Let_def)

text \<open>
  Two runs: after the release the window of adv has timer 1, and starting again
  leaves timer 2 alone; the falling window of clean has timer 1, and starting again
  is a no-op.
\<close>

theorem one_physics_timer_witness:
  "reach_adv released_adv \<and> physicsInterval released_adv = Some 1 \<and>
   intervals released_adv = {1} \<and> card (intervals released_adv) \<le> 1 \<and>
   intervals (stopPhysics released_adv) = {} \<and>
   intervals (startPhysics released_adv) = {2} \<and>
   reach_clean falling_clean \<and> physicsInterval falling_clean = Some 1 \<and>
   intervals falling_clean = {1} \<and> startPhysics_clean falling_clean = falling_clean"
  using one_physics_timer [of released_adv] one_physics_timer [of falling_clean]
    released_adv_reach falling_clean_reach released_adv_timer falling_clean_timer
  by simp

end
